theory Spec2Isabelle
  imports Complex_Main "HOL-Library.Word"
begin

section \<open>Single-precision floating point\<close>

text \<open>
  \<^verbatim>\<open>RgbLightHandler.cpp\<close> computes with the C++ type \<^verbatim>\<open>float\<close> (IEEE 754 binary32,
  round to nearest, ties to even, every operation rounded to that format). A finite
  float is represented by the rational number it denotes; the two infinities and NaN
  are separate values. The sign of a zero is not tracked: the only divisor of the
  program is the quotient of two unsigned integers, so a negative zero never decides a
  result here.
\<close>

datatype f32 = Fin rat | PInf | NInf | NaN

definition rne :: "rat \<Rightarrow> int" where
  \<comment> \<open>round to the nearest integer, ties to the even one\<close>
  "rne y = (let f = \<lfloor>y\<rfloor>; d = y - of_int f
            in if d < 1 / 2 then f
               else if 1 / 2 < d then f + 1
               else if even f then f else f + 1)"

function bitlen :: "int \<Rightarrow> int" where
  \<comment> \<open>number of binary digits of a positive integer\<close>
  "bitlen n = (if n \<le> 0 then 0 else 1 + bitlen (n div 2))"
  by pat_completeness auto
termination
  by (relation "measure nat") auto

declare bitlen.simps [simp del]

definition ilog2 :: "rat \<Rightarrow> int" where
  \<comment> \<open>for \<open>0 < x\<close>: the exponent \<open>L\<close> with \<open>2 powi L \<le> x < 2 powi (L + 1)\<close>\<close>
  "ilog2 x = (let t = bitlen (fst (quotient_of x)) - bitlen (snd (quotient_of x))
              in if 2 powi t \<le> x then t else t - 1)"

definition round32 :: "rat \<Rightarrow> f32" where
  \<comment> \<open>24 significant bits, least exponent \<open>-149\<close> (subnormals), overflow to infinity\<close>
  "round32 x =
     (if x = 0 then Fin 0
      else let e = max (ilog2 \<bar>x\<bar> - 23) (- 149);
               r = of_int (rne (x / 2 powi e)) * 2 powi e
           in if 2 ^ 128 \<le> \<bar>r\<bar> then (if 0 < x then PInf else NInf) else Fin r)"

fun fneg :: "f32 \<Rightarrow> f32" where
  "fneg (Fin a) = Fin (- a)"
| "fneg PInf = NInf"
| "fneg NInf = PInf"
| "fneg NaN = NaN"

fun fadd :: "f32 \<Rightarrow> f32 \<Rightarrow> f32" where
  "fadd NaN _ = NaN"
| "fadd _ NaN = NaN"
| "fadd PInf NInf = NaN"
| "fadd NInf PInf = NaN"
| "fadd PInf _ = PInf"
| "fadd _ PInf = PInf"
| "fadd NInf _ = NInf"
| "fadd _ NInf = NInf"
| "fadd (Fin a) (Fin b) = round32 (a + b)"

definition fsub :: "f32 \<Rightarrow> f32 \<Rightarrow> f32" where
  "fsub x y = fadd x (fneg y)"

fun fdiv :: "f32 \<Rightarrow> f32 \<Rightarrow> f32" where
  "fdiv NaN _ = NaN"
| "fdiv _ NaN = NaN"
| "fdiv (Fin a) (Fin b) =
     (if b = 0 then (if a = 0 then NaN else if 0 < a then PInf else NInf)
      else round32 (a / b))"
| "fdiv (Fin a) _ = Fin 0"
| "fdiv PInf (Fin b) = (if 0 \<le> b then PInf else NInf)"
| "fdiv NInf (Fin b) = (if 0 \<le> b then NInf else PInf)"
| "fdiv _ _ = NaN"

fun flt :: "f32 \<Rightarrow> f32 \<Rightarrow> bool" where
  \<comment> \<open>\<^verbatim>\<open>x < y\<close>; false as soon as one side is NaN\<close>
  "flt NaN _ = False"
| "flt _ NaN = False"
| "flt (Fin a) (Fin b) = (a < b)"
| "flt NInf NInf = False"
| "flt NInf _ = True"
| "flt _ NInf = False"
| "flt PInf _ = False"
| "flt _ PInf = True"

fun feq :: "f32 \<Rightarrow> f32 \<Rightarrow> bool" where
  \<comment> \<open>\<^verbatim>\<open>x == y\<close>; NaN equals nothing\<close>
  "feq NaN _ = False"
| "feq _ NaN = False"
| "feq x y = (x = y)"

definition fmin :: "f32 \<Rightarrow> f32 \<Rightarrow> f32" where
  \<comment> \<open>\<^verbatim>\<open>std::min(a, b)\<close> is \<^verbatim>\<open>(b < a) ? b : a\<close>\<close>
  "fmin a b = (if flt b a then b else a)"

definition fmax :: "f32 \<Rightarrow> f32 \<Rightarrow> f32" where
  \<comment> \<open>\<^verbatim>\<open>std::max(a, b)\<close> is \<^verbatim>\<open>(a < b) ? b : a\<close>\<close>
  "fmax a b = (if flt a b then b else a)"

definition float_of_uint :: "32 word \<Rightarrow> f32" where
  \<comment> \<open>conversion of an \<^verbatim>\<open>unsigned int\<close> to \<^verbatim>\<open>float\<close>\<close>
  "float_of_uint w = round32 (of_nat (unat w))"

definition float_of_int :: "int \<Rightarrow> f32" where
  \<comment> \<open>conversion of an \<^verbatim>\<open>int\<close> to \<^verbatim>\<open>float\<close>\<close>
  "float_of_int i = round32 (of_int i)"

section \<open>Colours, patterns and the output sink\<close>

text \<open>A colour is a \<^verbatim>\<open>vector<float>\<close>; the handler reads and writes its first
  \<^verbatim>\<open>NUM_COLORS\<close> elements with the unchecked \<^verbatim>\<open>operator[]\<close>.\<close>

type_synonym color = "f32 list"

text \<open>Modelled from the spec: the macro \<^verbatim>\<open>NUM_COLORS\<close> is declared in the header
  \<^verbatim>\<open>RgbLightHandler.h\<close>, which is absent; the spec fixes four channels (R, G, B, W).\<close>

definition NUM_COLORS :: nat where
  "NUM_COLORS = 4"

text \<open>Modelled from the spec: the class \<^verbatim>\<open>RgbLightPattern\<close> is declared in an absent
  header. The spec gives a pattern a refresh interval in milliseconds and a colour
  that may vary from one call of \<^verbatim>\<open>getColor\<close> to the next: the colour of the
  \<open>n\<close>-th call is \<open>samples n\<close>, and \<open>sampled\<close> counts the calls made so far. The
  member \<^verbatim>\<open>refreshInterval\<close> is taken to be an \<^verbatim>\<open>int\<close>, as the local \<^verbatim>\<open>interval\<close> of the
  worker that receives it.\<close>

record pattern =
  refreshInterval :: int
  samples :: "nat \<Rightarrow> color"
  sampled :: nat

text \<open>Modelled from the spec: \<^verbatim>\<open>getColor\<close> of the absent class returns the current
  colour; the pattern may advance its own state.\<close>

definition getColor :: "pattern \<Rightarrow> color \<times> pattern" where
  "getColor p = (samples p (sampled p), p\<lparr>sampled := Suc (sampled p)\<rparr>)"

text \<open>Modelled from the spec: \<^verbatim>\<open>clone\<close> of the absent class returns an independent copy.\<close>

definition clone :: "pattern \<Rightarrow> pattern" where
  "clone p = p"

text \<open>Modelled from the spec: the absent class \<^verbatim>\<open>RgbLightConstant\<close> is the baseline
  pattern that reports one colour forever. The refresh interval it announces is not
  in the sources and is a parameter here.\<close>

definition RgbLightConstant :: "int \<Rightarrow> color \<Rightarrow> pattern" where
  "RgbLightConstant ri c = \<lparr>refreshInterval = ri, samples = (\<lambda>_. c), sampled = 0\<rparr>"

text \<open>What the worker thread does to the outside world, in order: a colour pair handed
  to \<^verbatim>\<open>pwmDriver->setRgbw\<close>, and a \<^verbatim>\<open>sleep_for\<close> of so many milliseconds.\<close>

datatype event = SetRgbw color color | SleepFor int

text \<open>Undefined behaviour the code can reach: an unchecked vector index out of range,
  and the signed loop counter of the transition incremented past \<^verbatim>\<open>INT_MAX\<close>.\<close>

datatype fault = OutOfRange | SignedOverflow

definition INT_MAX :: int where
  "INT_MAX = 2147483647"

section \<open>The handler\<close>

text \<open>The members of \<^verbatim>\<open>RgbLightHandler\<close> that the code reads or writes. The two
  timing members have the type of the constructor parameters that initialise them,
  \<^verbatim>\<open>unsigned int\<close>. \<open>workerThread\<close> is true while the \<^verbatim>\<open>std::thread\<close> member is joinable.\<close>

record handler =
  patternLeft :: pattern
  patternRight :: pattern
  patternsChanged :: bool
  transitionsEnabled :: bool
  transitionRefreshInterval :: "32 word"
  transitionTime :: "32 word"
  isRunning :: bool
  workerThread :: bool

text \<open>The constructors assign some members only; the others keep what the object \<open>h0\<close>
  held before (an in-class initialiser of the absent header, or an indeterminate value).\<close>

definition RgbLightHandler :: "int \<Rightarrow> color \<Rightarrow> handler \<Rightarrow> handler" where
  "RgbLightHandler ri defaultColor h0 =
     h0\<lparr>patternLeft := RgbLightConstant ri defaultColor,
        patternRight := RgbLightConstant ri defaultColor,
        patternsChanged := False,
        transitionsEnabled := False\<rparr>"

definition RgbLightHandler_transition ::
  "int \<Rightarrow> color \<Rightarrow> 32 word \<Rightarrow> 32 word \<Rightarrow> handler \<Rightarrow> handler" where
  "RgbLightHandler_transition ri defaultColor refreshI time h0 =
     h0\<lparr>patternLeft := RgbLightConstant ri defaultColor,
        patternRight := RgbLightConstant ri defaultColor,
        patternsChanged := False,
        transitionsEnabled := True,
        transitionRefreshInterval := refreshI,
        transitionTime := time\<rparr>"

text \<open>\<^verbatim>\<open>stop\<close> returns the number of \<^verbatim>\<open>join\<close> calls it made (each one blocks until the
  worker has left its loop) together with the members as \<^verbatim>\<open>stop\<close> itself leaves them.\<close>

definition stop :: "handler \<Rightarrow> nat \<times> handler" where
  "stop h =
     (if isRunning h
      then (let h1 = h\<lparr>isRunning := False\<rparr>
            in if workerThread h1 then (1, h1\<lparr>workerThread := False\<rparr>) else (0, h1))
      else (0, h))"

text \<open>The three replacement calls; each runs between \<^verbatim>\<open>patternMutex.lock()\<close> and
  \<^verbatim>\<open>unlock()\<close>, so the worker sees either the state before or the state after.\<close>

definition setPatternLeft :: "pattern \<Rightarrow> handler \<Rightarrow> handler" where
  "setPatternLeft p h = h\<lparr>patternLeft := clone p, patternsChanged := True\<rparr>"

definition setPatternRight :: "pattern \<Rightarrow> handler \<Rightarrow> handler" where
  "setPatternRight p h = h\<lparr>patternRight := clone p, patternsChanged := True\<rparr>"

definition setPatterns :: "pattern \<Rightarrow> handler \<Rightarrow> handler" where
  "setPatterns p h = h\<lparr>patternLeft := clone p, patternRight := clone p, patternsChanged := True\<rparr>"

section \<open>The transition\<close>

definition calc_delta :: "color \<Rightarrow> color \<Rightarrow> f32 \<Rightarrow> color" where
  \<comment> \<open>\<^verbatim>\<open>delta[j] = (to[j] - from[j]) / maxi\<close> for \<^verbatim>\<open>j < NUM_COLORS\<close>\<close>
  "calc_delta to from maxi = map (\<lambda>j. fdiv (fsub (to ! j) (from ! j)) maxi) [0..<NUM_COLORS]"

definition clamp_step :: "color \<Rightarrow> color \<Rightarrow> color" where
  \<comment> \<open>\<^verbatim>\<open>from[j] = max(min(from[j] + delta[j], 1.0f), 0.0f)\<close> for \<^verbatim>\<open>j < NUM_COLORS\<close>\<close>
  "clamp_step from delta =
     map (\<lambda>j. if j < NUM_COLORS
               then fmax (fmin (fadd (from ! j) (delta ! j)) (Fin 1)) (Fin 0)
               else from ! j) [0..<length from]"

text \<open>The loop \<^verbatim>\<open>for (int i = 0; i < maxi; i++)\<close>: the counter is converted to
  \<^verbatim>\<open>float\<close> for the comparison; incrementing it at \<^verbatim>\<open>INT_MAX\<close> is undefined.\<close>

function transition_loop ::
  "int \<Rightarrow> f32 \<Rightarrow> int \<Rightarrow> color \<Rightarrow> color \<Rightarrow> color \<Rightarrow> color \<Rightarrow> event list \<times> fault option" where
  "transition_loop i maxi ms leftFrom rightFrom leftDelta rightDelta =
     (if flt (float_of_int i) maxi
      then (let lf = clamp_step leftFrom leftDelta;
                rf = clamp_step rightFrom rightDelta;
                evs = [SetRgbw lf rf, SleepFor ms]
            in if INT_MAX \<le> i then (evs, Some SignedOverflow)
               else (case transition_loop (i + 1) maxi ms lf rf leftDelta rightDelta of
                       (es, r) \<Rightarrow> (evs @ es, r)))
      else ([], None))"
  by pat_completeness auto
termination
  by (relation "measure (\<lambda>(i, _). nat (INT_MAX - i))") auto

declare transition_loop.simps [simp del]

definition transitionBoth ::
  "handler \<Rightarrow> color \<Rightarrow> color \<Rightarrow> (event list \<times> fault option) \<times> handler" where
  "transitionBoth h leftFrom rightFrom =
     (let (leftTo, pl) = getColor (patternLeft h);
          (rightTo, pr) = getColor (patternRight h);
          h1 = h\<lparr>patternLeft := pl, patternRight := pr\<rparr>;
          maxi = fdiv (float_of_uint (transitionTime h))
                      (float_of_uint (transitionRefreshInterval h))
      in if feq maxi (Fin 0) then (([], None), h1)
         else if length leftTo < NUM_COLORS \<or> length leftFrom < NUM_COLORS
                 \<or> length rightTo < NUM_COLORS \<or> length rightFrom < NUM_COLORS
         then (([], Some OutOfRange), h1)
         else (transition_loop 0 maxi (uint (transitionRefreshInterval h))
                 leftFrom rightFrom
                 (calc_delta leftTo leftFrom maxi) (calc_delta rightTo rightFrom maxi), h1))"

section \<open>The worker\<close>

record locals =
  interval :: int
  colorLeft :: color
  colorRight :: color

definition worker_init :: locals where
  "worker_init = \<lparr>interval = 20,
                   colorLeft = [Fin 0, Fin 0, Fin 0, Fin 0],
                   colorRight = [Fin 0, Fin 0, Fin 0, Fin 0]\<rparr>"

text \<open>One pass through the body of \<^verbatim>\<open>while (this->isRunning)\<close>: the events it emits and
  either the fault that ended it or the locals and members it leaves.\<close>

definition worker_iteration :: "locals \<Rightarrow> handler \<Rightarrow> event list \<times> (fault + locals \<times> handler)" where
  "worker_iteration l h =
     (let ((tevs, tf), h1) =
            (if patternsChanged h \<and> transitionsEnabled h
             then (let (r, h') = transitionBoth h (colorLeft l) (colorRight l)
                   in (r, h'\<lparr>patternsChanged := False\<rparr>))
             else (([], None), h))
      in case tf of
           Some f \<Rightarrow> (tevs, Inl f)
         | None \<Rightarrow>
             (let iv = min (refreshInterval (patternLeft h1)) (refreshInterval (patternRight h1));
                  (cl, pl) = getColor (patternLeft h1);
                  (cr, pr) = getColor (patternRight h1);
                  h2 = h1\<lparr>patternLeft := pl, patternRight := pr\<rparr>
              in (tevs @ [SetRgbw cl cr, SleepFor iv],
                  Inr (\<lparr>interval = iv, colorLeft = cl, colorRight = cr\<rparr>, h2))))"

text \<open>Calls that other threads make while the worker is outside the locked part of its
  body. A stop request is the assignment \<^verbatim>\<open>isRunning = false\<close> of \<^verbatim>\<open>stop\<close>.\<close>

datatype call = SetPatternLeft pattern | SetPatternRight pattern | SetPatterns pattern
  | RequestStop

fun apply_call :: "handler \<Rightarrow> call \<Rightarrow> handler" where
  "apply_call h (SetPatternLeft p) = setPatternLeft p h"
| "apply_call h (SetPatternRight p) = setPatternRight p h"
| "apply_call h (SetPatterns p) = setPatterns p h"
| "apply_call h RequestStop = h\<lparr>isRunning := False\<rparr>"

text \<open>The loop of \<^verbatim>\<open>worker\<close> against a schedule: the \<open>k\<close>-th element lists the calls
  that arrive before the \<open>k\<close>-th test of \<^verbatim>\<open>isRunning\<close>. The run is observed until the
  loop exits, a fault occurs or the schedule is used up.\<close>

fun worker_loop :: "call list list \<Rightarrow> locals \<Rightarrow> handler \<Rightarrow> event list \<times> (fault + locals \<times> handler)" where
  "worker_loop [] l h = ([], Inr (l, h))"
| "worker_loop (cs # css) l h =
     (let h' = foldl apply_call h cs
      in if isRunning h'
         then (case worker_iteration l h' of
                 (evs, Inl f) \<Rightarrow> (evs, Inl f)
               | (evs, Inr (l', h'')) \<Rightarrow>
                   (case worker_loop css l' h'' of (evs', r) \<Rightarrow> (evs @ evs', r)))
         else ([], Inr (l, h')))"

definition worker :: "call list list \<Rightarrow> handler \<Rightarrow> event list \<times> (fault + locals \<times> handler)" where
  "worker sched h = worker_loop sched worker_init (h\<lparr>isRunning := True\<rparr>)"

section \<open>Observing a run\<close>

definition events_of :: "event list \<times> (fault + locals \<times> handler) \<Rightarrow> event list" where
  "events_of r = fst r"

definition handler_of :: "event list \<times> (fault + locals \<times> handler) \<Rightarrow> handler option" where
  "handler_of r = (case snd r of Inl _ \<Rightarrow> None | Inr (l, h) \<Rightarrow> Some h)"

definition black :: color where
  "black = [Fin 0, Fin 0, Fin 0, Fin 0]"

text \<open>An object before its constructor has run, used for concrete runs.\<close>

definition raw_handler :: handler where
  "raw_handler =
     \<lparr>patternLeft = RgbLightConstant 20 black, patternRight = RgbLightConstant 20 black,
      patternsChanged = False, transitionsEnabled = False, transitionRefreshInterval = 0,
      transitionTime = 0, isRunning = False, workerThread = False\<rparr>"

fun pushes :: "event list \<Rightarrow> (color \<times> color) list" where
  \<comment> \<open>the colour pairs handed to the sink, in order\<close>
  "pushes [] = []"
| "pushes (SetRgbw l r # es) = (l, r) # pushes es"
| "pushes (SleepFor _ # es) = pushes es"

definition white :: color where
  "white = [Fin 1, Fin 1, Fin 1, Fin 1]"

text \<open>The exact quotient of the transition time by the transition refresh interval.\<close>

definition D_over_R :: "handler \<Rightarrow> rat" where
  "D_over_R h = of_nat (unat (transitionTime h)) / of_nat (unat (transitionRefreshInterval h))"

section \<open>Predicates on colours\<close>

text \<open>A channel in the unit interval; a finite channel well inside the range of
  \<^verbatim>\<open>float\<close>; a colour whose first \<^verbatim>\<open>NUM_COLORS\<close> channels are in the unit interval.\<close>

definition unit_channel :: "f32 \<Rightarrow> bool" where
  "unit_channel x = (case x of Fin a \<Rightarrow> 0 \<le> a \<and> a \<le> 1 | _ \<Rightarrow> False)"

definition finite_channel :: "f32 \<Rightarrow> bool" where
  "finite_channel x = (case x of Fin a \<Rightarrow> \<bar>a\<bar> < 2 ^ 126 | _ \<Rightarrow> False)"

definition unit_color :: "color \<Rightarrow> bool" where
  "unit_color c = (NUM_COLORS \<le> length c \<and> list_all unit_channel (take NUM_COLORS c))"

definition finite_color :: "color \<Rightarrow> bool" where
  "finite_color c = list_all finite_channel c"

definition unit_pair :: "color \<times> color \<Rightarrow> bool" where
  "unit_pair p = (unit_color (fst p) \<and> unit_color (snd p))"

text \<open>What one clamped step needs: enough channels, each of them finite, and no NaN
  among the deltas.\<close>

definition steppable :: "color \<Rightarrow> color \<Rightarrow> bool" where
  "steppable c d =
     (NUM_COLORS \<le> length c \<and> (\<forall>j<NUM_COLORS. (\<exists>a. c ! j = Fin a) \<and> d ! j \<noteq> NaN))"

text \<open>Four equal channels; the ten values such a channel takes during the fade from 0 to 1
  in ten steps of the \<^verbatim>\<open>float\<close> nearest to 0.1; and a check that consecutive values of a
  list differ by \<open>d\<close> up to \<open>tol\<close>.\<close>

definition gray :: "rat \<Rightarrow> color" where
  "gray v = [Fin v, Fin v, Fin v, Fin v]"

definition ramp :: "rat list" where
  "ramp = [13421773 / 134217728, 13421773 / 67108864, 5033165 / 16777216,
           13421773 / 33554432, 1 / 2, 5033165 / 8388608, 2936013 / 4194304,
           6710887 / 8388608, 1887437 / 2097152, 1]"

fun steps_near :: "rat \<Rightarrow> rat \<Rightarrow> rat list \<Rightarrow> bool" where
  "steps_near d tol (x # y # ys) = (\<bar>(y - x) - d\<bar> \<le> tol \<and> steps_near d tol (y # ys))"
| "steps_near d tol _ = True"

section \<open>Facts about rounding\<close>

lemma bitlen_nonneg: "0 \<le> bitlen n"
  by (induction n rule: bitlen.induct) (subst bitlen.simps, simp)

lemma bitlen_bounds:
  "0 < n \<Longrightarrow> 2 ^ nat (bitlen n - 1) \<le> n \<and> n < 2 ^ nat (bitlen n)"
proof (induction n rule: bitlen.induct)
  case (1 n)
  show ?case
  proof (cases "n = 1")
    case True
    have "bitlen 1 = 1" by (subst bitlen.simps, subst bitlen.simps, simp)
    with True show ?thesis by simp
  next
    case False
    with "1.prems" have m: "0 < n div 2" by simp
    from "1.IH" "1.prems" m
    have ih: "2 ^ nat (bitlen (n div 2) - 1) \<le> n div 2" "n div 2 < 2 ^ nat (bitlen (n div 2))"
      by simp_all
    have bl: "bitlen n = 1 + bitlen (n div 2)" using "1.prems" by (subst bitlen.simps) simp
    have pos: "1 \<le> bitlen (n div 2)"
      using m bitlen_nonneg [of "(n div 2) div 2"] by (subst bitlen.simps) simp
    have e1: "nat (bitlen n - 1) = Suc (nat (bitlen (n div 2) - 1))" using bl pos by simp
    have e2: "nat (bitlen n) = Suc (nat (bitlen (n div 2)))" using bl pos by simp
    have "2 * 2 ^ nat (bitlen (n div 2) - 1) \<le> n" using ih(1) by simp
    moreover have "n < 2 * 2 ^ nat (bitlen (n div 2))" using ih(2) by simp
    ultimately show ?thesis unfolding e1 e2 by simp
  qed
qed

lemma bitlen_powi:
  assumes "0 < n"
  shows "(2::rat) powi (bitlen n - 1) \<le> of_int n" "of_int n < (2::rat) powi (bitlen n)"
proof -
  from bitlen_bounds [OF assms]
  have a: "2 ^ nat (bitlen n - 1) \<le> n" and b: "n < 2 ^ nat (bitlen n)" by simp_all
  have pos: "1 \<le> bitlen n" using assms bitlen_nonneg [of "n div 2"] by (subst bitlen.simps) simp
  have "(of_int (2 ^ nat (bitlen n - 1)) :: rat) \<le> of_int n" using a by (simp only: of_int_le_iff)
  then show "(2::rat) powi (bitlen n - 1) \<le> of_int n" using pos by (simp add: power_int_def)
  have "(of_int n :: rat) < of_int (2 ^ nat (bitlen n))" using b by (simp only: of_int_less_iff)
  then show "of_int n < (2::rat) powi (bitlen n)" using pos by (simp add: power_int_def)
qed

lemma ilog2_bounds:
  assumes "0 < x"
  shows "2 powi (ilog2 x) \<le> x" "x < 2 powi (ilog2 x + 1)"
proof -
  obtain p q where pq: "quotient_of x = (p, q)" by (cases "quotient_of x")
  then have q: "0 < q" and x: "x = of_int p / of_int q"
    by (simp_all add: quotient_of_denom_pos quotient_of_div)
  have p: "0 < p" using assms q x by (simp add: zero_less_divide_iff)
  define t where "t = bitlen p - bitlen q"
  have il: "ilog2 x = (if 2 powi t \<le> x then t else t - 1)"
    by (simp add: ilog2_def pq t_def Let_def)
  note bp = bitlen_powi [OF p] and bq = bitlen_powi [OF q]
  have qpos: "(0::rat) < of_int q" using q by simp
  have lo: "2 powi (t - 1) \<le> x"
  proof -
    have "(2::rat) powi (t - 1) = 2 powi (bitlen p - 1) / 2 powi (bitlen q)"
      by (simp add: t_def power_int_diff)
    also have "\<dots> \<le> of_int p / 2 powi (bitlen q)"
      using bp(1) by (simp add: divide_right_mono)
    also have "\<dots> \<le> of_int p / of_int q"
      using bq(2) p qpos by (intro divide_left_mono) (simp_all)
    finally show ?thesis by (simp add: x)
  qed
  have hi: "x < 2 powi (t + 1)"
  proof -
    have "x = of_int p / of_int q" by (rule x)
    also have "\<dots> < 2 powi (bitlen p) / of_int q"
      using bp(2) qpos by (simp add: divide_strict_right_mono)
    also have "\<dots> \<le> 2 powi (bitlen p) / 2 powi (bitlen q - 1)"
      using bq(1) qpos by (intro divide_left_mono) (simp_all)
    also have "\<dots> = 2 powi (t + 1)"
      by (simp add: t_def power_int_diff power_int_add)
    finally show ?thesis .
  qed
  show "2 powi (ilog2 x) \<le> x" using il lo by simp
  show "x < 2 powi (ilog2 x + 1)" using il hi by (simp split: if_splits)
qed

lemma rne_error: "\<bar>of_int (rne y) - y\<bar> \<le> 1 / 2"
proof -
  have "of_int \<lfloor>y\<rfloor> \<le> y" "y < of_int \<lfloor>y\<rfloor> + 1" by linarith+
  then show ?thesis by (auto simp: rne_def Let_def)
qed

lemma rne_of_int [simp]: "rne (of_int k) = k"
  by (simp add: rne_def)

lemma round32_not_NaN [simp]: "round32 x \<noteq> NaN"
  by (simp add: round32_def Let_def)

lemma round32_zero [simp]: "round32 0 = Fin 0"
  by (simp add: round32_def)

lemma round32_error:
  assumes "\<bar>x\<bar> < 2 ^ 127"
  shows "\<exists>r. round32 x = Fin r \<and> \<bar>r - x\<bar> \<le> max (\<bar>x\<bar> / 2 ^ 24) (1 / 2 ^ 150)"
proof (cases "x = 0")
  case True
  then show ?thesis by simp
next
  case False
  define L where "L = ilog2 \<bar>x\<bar>"
  define e where "e = max (L - 23) (- 149)"
  define r where "r = of_int (rne (x / 2 powi e)) * (2::rat) powi e"
  have xpos: "0 < \<bar>x\<bar>" using False by simp
  have pe: "(0::rat) < 2 powi e" by (simp add: zero_less_power_int)
  have "\<bar>of_int (rne (x / 2 powi e)) - x / 2 powi e\<bar> * 2 powi e \<le> 1 / 2 * 2 powi e"
    using rne_error [of "x / 2 powi e"] pe by (intro mult_right_mono) simp_all
  moreover have "\<bar>of_int (rne (x / 2 powi e)) - x / 2 powi e\<bar> * 2 powi e = \<bar>r - x\<bar>"
  proof -
    have "\<bar>of_int (rne (x / 2 powi e)) - x / 2 powi e\<bar> * 2 powi e
          = \<bar>(of_int (rne (x / 2 powi e)) - x / 2 powi e) * 2 powi e\<bar>"
      using pe by (simp add: abs_mult)
    also have "(of_int (rne (x / 2 powi e)) - x / 2 powi e) * 2 powi e = r - x"
      using pe by (simp add: r_def algebra_simps)
    finally show ?thesis .
  qed
  ultimately have err: "\<bar>r - x\<bar> \<le> 2 powi e / 2" by simp
  have bound: "2 powi e / 2 \<le> max (\<bar>x\<bar> / 2 ^ 24) (1 / 2 ^ 150)"
  proof (cases "- 149 \<le> L - 23")
    case True
    then have "e = L - 23" by (simp add: e_def)
    then have "(2::rat) powi e / 2 = 2 powi L / 2 ^ 24"
      by (simp add: power_int_diff)
    also have "\<dots> \<le> \<bar>x\<bar> / 2 ^ 24"
      using ilog2_bounds(1) [OF xpos] by (simp add: L_def divide_right_mono)
    finally show ?thesis by simp
  next
    case False
    then have "e = - 149" by (simp add: e_def)
    then have "(2::rat) powi e / 2 = 1 / 2 ^ 150"
      by (simp add: power_int_def field_simps)
    then show ?thesis by simp
  qed
  have "\<bar>r\<bar> \<le> \<bar>x\<bar> + \<bar>r - x\<bar>" by simp
  also have "\<dots> \<le> \<bar>x\<bar> + max (\<bar>x\<bar> / 2 ^ 24) (1 / 2 ^ 150)" using err bound by simp
  also have "\<dots> < 2 ^ 128" using assms by (simp add: max_def field_simps)
  finally have fin: "\<not> 2 ^ 128 \<le> \<bar>r\<bar>" by simp
  have "round32 x = Fin r"
    using False fin by (simp add: round32_def Let_def L_def e_def r_def)
  with err bound show ?thesis by auto
qed

lemma round32_exact:
  assumes x: "x = of_int m * 2 powi e'" and m: "\<bar>m\<bar> < 2 ^ 24" and e': "- 149 \<le> e'"
    and small: "\<bar>x\<bar> < 2 ^ 128"
  shows "round32 x = Fin x"
proof (cases "x = 0")
  case True
  then show ?thesis by simp
next
  case False
  define L where "L = ilog2 \<bar>x\<bar>"
  define e where "e = max (L - 23) (- 149)"
  have xpos: "0 < \<bar>x\<bar>" using False by simp
  have "\<bar>x\<bar> = of_int \<bar>m\<bar> * 2 powi e'" by (simp add: x abs_mult)
  also have "\<dots> < of_int (2 ^ 24) * 2 powi e'"
  proof (rule mult_strict_right_mono)
    show "(of_int \<bar>m\<bar> :: rat) < of_int (2 ^ 24)" using m by (simp only: of_int_less_iff)
    show "(0::rat) < 2 powi e'" by (simp add: zero_less_power_int)
  qed
  also have "\<dots> = 2 powi (24 + e')" by (simp add: power_int_add)
  finally have "2 powi L < (2::rat) powi (24 + e')"
    using ilog2_bounds(1) [OF xpos] by (simp add: L_def)
  then have "L < 24 + e'"
    using power_int_increasing [of "24 + e'" L "2::rat"] by (cases "L < 24 + e'") simp_all
  with e' have le: "e \<le> e'" by (simp add: e_def)
  define k where "k = m * 2 ^ nat (e' - e)"
  have "x / 2 powi e = of_int m * 2 powi (e' - e)" by (simp add: x power_int_diff)
  also have "\<dots> = of_int k" using le by (simp add: k_def power_int_def)
  finally have q: "x / 2 powi e = of_int k" .
  have "of_int (rne (x / 2 powi e)) * (2::rat) powi e = x / 2 powi e * 2 powi e"
    unfolding q by simp
  also have "\<dots> = x" by simp
  finally have r: "of_int (rne (x / 2 powi e)) * (2::rat) powi e = x" .
  show ?thesis
    using False small r by (simp add: round32_def Let_def L_def [symmetric] e_def [symmetric])
qed

lemma round32_of_int:
  assumes "\<bar>k\<bar> < 2 ^ 24"
  shows "round32 (of_int k) = Fin (of_int k)"
proof (rule round32_exact [where m = k and e' = 0])
  have "\<bar>(of_int k :: rat)\<bar> = of_int \<bar>k\<bar>" by simp
  also have "\<dots> < of_int (2 ^ 24)" using assms by (simp only: of_int_less_iff)
  finally show "\<bar>(of_int k :: rat)\<bar> < 2 ^ 128" by simp
qed (use assms in simp_all)

lemma ilog2_eq:
  assumes "2 powi L \<le> x" "x < 2 powi (L + 1)"
  shows "ilog2 x = L"
proof -
  have "(0::rat) < 2 powi L" by (simp add: zero_less_power_int)
  then have xpos: "0 < x" using assms(1) by (rule less_le_trans)
  note b = ilog2_bounds [OF xpos]
  have "2 powi (ilog2 x) < (2::rat) powi (L + 1)" using b(1) assms(2) by simp
  then have 1: "ilog2 x < L + 1"
    using power_int_increasing [of "L + 1" "ilog2 x" "2::rat"] by (cases "ilog2 x < L + 1") simp_all
  have "2 powi L < (2::rat) powi (ilog2 x + 1)" using b(2) assms(1) by simp
  then have 2: "L < ilog2 x + 1"
    using power_int_increasing [of "ilog2 x + 1" L "2::rat"] by (cases "L < ilog2 x + 1") simp_all
  from 1 2 show ?thesis by simp
qed

lemma rne_near:
  assumes "\<bar>y - of_int m\<bar> < 1 / 2"
  shows "rne y = m"
proof (cases "of_int m \<le> y")
  case True
  with assms have "\<lfloor>y\<rfloor> = m" by (intro floor_unique) (simp_all add: abs_if split: if_splits)
  with assms True show ?thesis by (simp add: rne_def Let_def)
next
  case False
  with assms have "\<lfloor>y\<rfloor> = m - 1" by (intro floor_unique) (simp_all add: abs_if split: if_splits)
  with assms False show ?thesis by (simp add: rne_def Let_def abs_if split: if_splits)
qed

lemma round32_near:
  assumes "2 powi L \<le> \<bar>x\<bar>" "\<bar>x\<bar> < 2 powi (L + 1)" "e = max (L - 23) (- 149)"
    and "\<bar>x / 2 powi e - of_int m\<bar> < 1 / 2" "r = of_int m * 2 powi e" "\<bar>r\<bar> < 2 ^ 128"
  shows "round32 x = Fin r"
proof -
  have "(0::rat) < 2 powi L" by (simp add: zero_less_power_int)
  then have "0 < \<bar>x\<bar>" using assms(1) by (rule less_le_trans)
  then have "x \<noteq> 0" by simp
  moreover have "ilog2 \<bar>x\<bar> = L" using assms(1,2) by (rule ilog2_eq)
  moreover have "rne (x / 2 powi e) = m" using assms(4) by (rule rne_near)
  ultimately show ?thesis using assms(3,5,6) by (simp add: round32_def Let_def)
qed


lemma round32_numeral [simp]:
  "(numeral k :: int) < 2 ^ 24 \<Longrightarrow> round32 (numeral k) = Fin (numeral k)"
  using round32_of_int [of "numeral k"] by simp

lemma round32_one [simp]: "round32 1 = Fin 1"
  using round32_of_int [of 1] by simp

lemma round32_half [simp]: "round32 (1 / 2) = Fin (1 / 2)"
  using round32_exact [of "1 / 2" 1 "- 1"] by (simp add: power_int_def)


section \<open>Facts about the transition loop\<close>

lemma float_of_int_small:
  "\<bar>i\<bar> < 2 ^ 24 \<Longrightarrow> float_of_int i = Fin (of_int i)"
  by (simp add: float_of_int_def round32_of_int)

lemma float_of_uint_small:
  assumes "unat w < 2 ^ 24"
  shows "float_of_uint w = Fin (of_nat (unat w))"
proof -
  have "\<bar>int (unat w)\<bar> < 2 ^ 24"
    using assms by (simp only: abs_of_nat of_nat_less_numeral_power_cancel_iff)
  from round32_of_int [OF this] show ?thesis by (simp add: float_of_uint_def)
qed

lemma pushes_append: "pushes (xs @ ys) = pushes xs @ pushes ys"
  by (induction xs rule: pushes.induct) simp_all

lemma transition_loop_count:
  assumes "0 \<le> i" "i \<le> n" "n = \<lceil>q\<rceil>" "n < 2 ^ 24"
  shows "length (pushes (fst (transition_loop i (Fin q) ms lf rf ld rd))) = nat (n - i)
         \<and> snd (transition_loop i (Fin q) ms lf rf ld rd) = None"
  using assms(1,2)
proof (induction "nat (n - i)" arbitrary: i lf rf)
  case 0
  then have i: "i = n" by simp
  have "\<bar>i\<bar> < 2 ^ 24" using "0.prems" assms(4) by simp
  then have "float_of_int i = Fin (of_int i)" by (rule float_of_int_small)
  moreover have "\<not> of_int i < q" unfolding i assms(3) by (simp add: not_less le_of_int_ceiling)
  ultimately show ?case by (subst (1 2) transition_loop.simps) (simp add: i)
next
  case (Suc k)
  then have lt: "i < n" by simp
  have "\<bar>i\<bar> < 2 ^ 24" using Suc.prems assms(4) by simp
  then have fi: "float_of_int i = Fin (of_int i)" by (rule float_of_int_small)
  have cmp: "of_int i < q" using lt unfolding assms(3) by (simp add: less_ceiling_iff)
  have nmax: "\<not> INT_MAX \<le> i" using lt assms(4) by (simp add: INT_MAX_def)
  have k: "k = nat (n - (i + 1))" using Suc.hyps(2) by simp
  have ih: "length (pushes (fst (transition_loop (i + 1) (Fin q) ms lf' rf' ld rd)))
              = nat (n - (i + 1))
            \<and> snd (transition_loop (i + 1) (Fin q) ms lf' rf' ld rd) = None" for lf' rf'
    using Suc.hyps(1) [OF k] Suc.prems lt by simp
  obtain es r where rec:
    "transition_loop (i + 1) (Fin q) ms (clamp_step lf ld) (clamp_step rf rd) ld rd = (es, r)"
    by (cases "transition_loop (i + 1) (Fin q) ms (clamp_step lf ld) (clamp_step rf rd) ld rd")
  have ar: "Suc (nat (n - (i + 1))) = nat (n - i)" using lt by simp
  from ih [of "clamp_step lf ld" "clamp_step rf rd"] rec
  have "length (pushes es) = nat (n - (i + 1))" "r = None" by simp_all
  then show ?case
    by (subst (1 2) transition_loop.simps) (simp add: fi cmp nmax Let_def rec ar)
qed

lemma quotient_ceiling:
  fixes D R :: nat
  assumes R: "0 < R" and D: "0 < D" and Db: "D < 2 ^ 24" and Rb: "R < 2 ^ 24"
  shows "\<exists>q. round32 (of_nat D / of_nat R) = Fin q
             \<and> \<lceil>q\<rceil> = \<lceil>(of_nat D / of_nat R :: rat)\<rceil> \<and> 0 < q"
proof -
  define x :: rat where "x = of_nat D / of_nat R"
  define n where "n = \<lceil>x\<rceil>"
  have Rpos: "(0::rat) < of_nat R" using R by simp
  have xpos: "0 < x" using R D by (simp add: x_def)
  have xR: "x * of_nat R = of_nat D" using R by (simp add: x_def)
  have xle: "x \<le> of_nat D"
  proof -
    have "(1::rat) \<le> of_nat R" using R by (simp add: Suc_le_eq)
    then have "x * 1 \<le> x * of_nat R" using xpos by (intro mult_left_mono) simp_all
    then show ?thesis by (simp add: xR)
  qed
  have Dr: "(of_nat D :: rat) < 2 ^ 24" using Db by (simp only: of_nat_less_numeral_power_cancel_iff)
  have Rr: "(of_nat R :: rat) < 2 ^ 24" using Rb by (simp only: of_nat_less_numeral_power_cancel_iff)
  have small: "\<bar>x\<bar> < 2 ^ 127" using xle Dr xpos by simp
  from round32_error [OF small] obtain r where
    r: "round32 x = Fin r" and err: "\<bar>r - x\<bar> \<le> max (\<bar>x\<bar> / 2 ^ 24) (1 / 2 ^ 150)" by blast
  have e1: "\<bar>x\<bar> / 2 ^ 24 < 1 / of_nat R"
  proof -
    have "x * of_nat R < 2 ^ 24" using Dr by (simp add: xR)
    then show ?thesis using Rpos xpos by (simp add: field_simps)
  qed
  have e2: "1 / 2 ^ 150 < 1 / (of_nat R :: rat)"
  proof -
    have "(of_nat R :: rat) < 2 ^ 150" using Rr by simp
    then show ?thesis using Rpos by (simp add: field_simps)
  qed
  from err e1 e2 have close: "\<bar>r - x\<bar> < 1 / of_nat R" by linarith
  have n1: "of_int n - 1 < x" "x \<le> of_int n" unfolding n_def by linarith+
  have npos: "0 < n" using xpos by (simp add: n_def)
  show ?thesis
  proof (cases "x = of_int n")
    case True
    have "n < 2 ^ 24"
    proof -
      have "(of_int n :: rat) < of_int (2 ^ 24)" using True xle Dr by simp
      then show ?thesis by (simp only: of_int_less_iff)
    qed
    with npos have "\<bar>n\<bar> < 2 ^ 24" by simp
    from round32_of_int [OF this] have "round32 x = Fin x" by (simp add: True)
    then show ?thesis using xpos by (simp add: x_def [symmetric])
  next
    case False
    with n1 have lt: "x < of_int n" by simp
    have up: "x + 1 / of_nat R \<le> of_int n"
    proof -
      have "(of_nat D :: rat) < of_int n * of_nat R"
        using lt Rpos by (simp add: xR [symmetric])
      then have "(of_int (int D) :: rat) < of_int (n * int R)" by simp
      then have "int D < n * int R" by (simp only: of_int_less_iff)
      then have "int D + 1 \<le> n * int R" by simp
      then have "(of_int (int D + 1) :: rat) \<le> of_int (n * int R)" by (simp only: of_int_le_iff)
      then have "x * of_nat R + 1 \<le> of_int n * of_nat R" by (simp add: xR)
      then show ?thesis using Rpos by (simp add: field_simps)
    qed
    have dn: "of_int n - 1 + 1 / of_nat R \<le> x"
    proof -
      have "(of_int n - 1) * of_nat R < (of_nat D :: rat)"
        using n1(1) Rpos by (simp add: xR [symmetric])
      then have "(of_int ((n - 1) * int R) :: rat) < of_int (int D)" by simp
      then have "(n - 1) * int R < int D" by (simp only: of_int_less_iff)
      then have "(n - 1) * int R + 1 \<le> int D" by simp
      then have "(of_int ((n - 1) * int R + 1) :: rat) \<le> of_int (int D)" by (simp only: of_int_le_iff)
      then have "(of_int n - 1) * of_nat R + 1 \<le> x * of_nat R" by (simp add: xR)
      then show ?thesis using Rpos by (simp add: field_simps)
    qed
    from close have c: "r - x < 1 / of_nat R" "x - r < 1 / of_nat R" by linarith+
    from c up dn have b: "of_int n - 1 < r" "r \<le> of_int n" by linarith+
    then have "\<lceil>r\<rceil> = n" by (rule ceiling_unique)
    moreover have "(1::rat) \<le> of_int n" using npos by simp
    with b(1) have "0 < r" by linarith
    ultimately show ?thesis using r by (simp add: x_def [symmetric] n_def)
  qed
qed

lemmas run_defs = transitionBoth_def setPatterns_def setPatternLeft_def setPatternRight_def
  RgbLightHandler_transition_def RgbLightHandler_def RgbLightConstant_def raw_handler_def
  getColor_def clone_def calc_delta_def clamp_step_def NUM_COLORS_def INT_MAX_def
  float_of_uint_def float_of_int_def fsub_def fmin_def fmax_def Let_def black_def white_def

lemma upt4: "[0..<4] = [0, 1, 2, 3]"
  by (simp add: upt_rec)

lemma flt_NaN_right [simp]: "flt x NaN = False"
  by (cases x) simp_all

lemma clamp_unit: "x \<noteq> NaN \<Longrightarrow> unit_channel (fmax (fmin x (Fin 1)) (Fin 0))"
  by (cases x) (auto simp: fmin_def fmax_def unit_channel_def)

lemma fadd_Fin_not_NaN: "d \<noteq> NaN \<Longrightarrow> fadd (Fin a) d \<noteq> NaN"
  by (cases d) simp_all

lemma clamp_step_unit:
  assumes "steppable c d"
  shows "unit_color (clamp_step c d)"
proof -
  have len: "NUM_COLORS \<le> length c" using assms by (simp add: steppable_def)
  have "unit_channel (clamp_step c d ! j)" if j: "j < NUM_COLORS" for j
  proof -
    from assms j obtain a where a: "c ! j = Fin a" and d: "d ! j \<noteq> NaN"
      by (auto simp: steppable_def)
    have "clamp_step c d ! j = fmax (fmin (fadd (c ! j) (d ! j)) (Fin 1)) (Fin 0)"
      using j len by (simp add: clamp_step_def)
    then show ?thesis using fadd_Fin_not_NaN [OF d, of a] by (simp add: a clamp_unit)
  qed
  then show ?thesis using len
    by (simp add: unit_color_def list_all_length clamp_step_def)
qed

lemma unit_color_steppable:
  assumes "unit_color c" "\<forall>j<NUM_COLORS. d ! j \<noteq> NaN"
  shows "steppable c d"
proof -
  have "\<exists>a. c ! j = Fin a" if "j < NUM_COLORS" for j
  proof -
    have "unit_channel (c ! j)"
      using assms(1) that by (auto simp: unit_color_def list_all_length)
    then show ?thesis by (cases "c ! j") (simp_all add: unit_channel_def)
  qed
  then show ?thesis using assms by (simp add: steppable_def unit_color_def)
qed

lemma transition_loop_clamped:
  assumes "steppable lf ld" "steppable rf rd"
  shows "list_all unit_pair (pushes (fst (transition_loop i maxi ms lf rf ld rd)))"
  using assms
proof (induction i maxi ms lf rf ld rd rule: transition_loop.induct)
  case (1 i maxi ms lf rf ld rd)
  have u: "unit_color (clamp_step lf ld)" "unit_color (clamp_step rf rd)"
    using "1.prems" by (simp_all add: clamp_step_unit)
  have nn: "\<forall>j<NUM_COLORS. ld ! j \<noteq> NaN" "\<forall>j<NUM_COLORS. rd ! j \<noteq> NaN"
    using "1.prems" by (simp_all add: steppable_def)
  have st: "steppable (clamp_step lf ld) ld" "steppable (clamp_step rf rd) rd"
    using u nn by (simp_all add: unit_color_steppable)
  show ?case
  proof (cases "flt (float_of_int i) maxi")
    case False
    then show ?thesis by (subst transition_loop.simps) simp
  next
    case True
    show ?thesis
    proof (cases "INT_MAX \<le> i")
      case True
      with \<open>flt (float_of_int i) maxi\<close> u show ?thesis
        by (subst transition_loop.simps) (simp add: Let_def unit_pair_def)
    next
      case False
      from "1.IH" [OF True refl refl refl False st]
      have "list_all unit_pair (pushes (fst (transition_loop (i + 1) maxi ms
              (clamp_step lf ld) (clamp_step rf rd) ld rd)))" .
      with True False u show ?thesis
        by (subst transition_loop.simps) (auto simp: Let_def unit_pair_def split: prod.splits)
    qed
  qed
qed

lemma transition_loop_NaN [simp]: "transition_loop i NaN ms lf rf ld rd = ([], None)"
  by (subst transition_loop.simps) simp

lemma fsub_finite:
  assumes "finite_channel x" "finite_channel y"
  shows "\<exists>r. fsub x y = Fin r"
proof -
  from assms obtain a b where x: "x = Fin a" and y: "y = Fin b"
    and a: "\<bar>a\<bar> < 2 ^ 126" and b: "\<bar>b\<bar> < 2 ^ 126"
    by (cases x; cases y) (auto simp: finite_channel_def)
  have "\<bar>a + - b\<bar> < 2 ^ 127" using a b by simp
  from round32_error [OF this] show ?thesis by (auto simp: x y fsub_def)
qed

lemma fdiv_Fin_not_NaN:
  assumes "maxi \<noteq> NaN" "\<not> feq maxi (Fin 0)"
  shows "fdiv (Fin r) maxi \<noteq> NaN"
  using assms by (cases maxi) auto

lemma calc_delta_steppable:
  assumes "finite_color to" "finite_color from" "NUM_COLORS \<le> length to"
    "NUM_COLORS \<le> length from" "maxi \<noteq> NaN" "\<not> feq maxi (Fin 0)"
  shows "steppable from (calc_delta to from maxi)"
proof -
  have "(\<exists>a. from ! j = Fin a) \<and> calc_delta to from maxi ! j \<noteq> NaN" if j: "j < NUM_COLORS" for j
  proof -
    have ft: "finite_channel (to ! j)" and ff: "finite_channel (from ! j)"
      using assms(1-4) j by (auto simp: finite_color_def list_all_length)
    from fsub_finite [OF ft ff] obtain r where r: "fsub (to ! j) (from ! j) = Fin r" ..
    have "calc_delta to from maxi ! j = fdiv (fsub (to ! j) (from ! j)) maxi"
      using j by (simp add: calc_delta_def)
    then have "calc_delta to from maxi ! j \<noteq> NaN"
      using fdiv_Fin_not_NaN [OF assms(5,6)] by (simp add: r)
    moreover have "\<exists>a. from ! j = Fin a"
      using ff by (cases "from ! j") (simp_all add: finite_channel_def)
    ultimately show ?thesis by simp
  qed
  then show ?thesis using assms(4) by (simp add: steppable_def)
qed

lemma float_of_int_finite:
  assumes "\<bar>i\<bar> \<le> INT_MAX"
  shows "\<exists>r. float_of_int i = Fin r"
proof -
  have "(of_int \<bar>i\<bar> :: rat) \<le> of_int INT_MAX" using assms by (simp only: of_int_le_iff)
  then have "\<bar>of_int i :: rat\<bar> < 2 ^ 127" by (simp add: INT_MAX_def)
  from round32_error [OF this] show ?thesis by (auto simp: float_of_int_def)
qed

lemma transition_loop_PInf:
  assumes "0 \<le> i" "i \<le> INT_MAX" "clamp_step lf ld = lf" "clamp_step rf rd = rf"
  shows "transition_loop i PInf ms lf rf ld rd
         = (concat (replicate (nat (INT_MAX - i + 1)) [SetRgbw lf rf, SleepFor ms]),
            Some SignedOverflow)"
  using assms(1,2)
proof (induction "nat (INT_MAX - i)" arbitrary: i)
  case 0
  then have i: "INT_MAX \<le> i" and n: "nat (INT_MAX - i + 1) = Suc 0" by simp_all
  from float_of_int_finite [of i] "0.prems" obtain r where r: "float_of_int i = Fin r" by auto
  show ?case
    by (subst transition_loop.simps) (simp add: r assms(3,4) i n)
next
  case (Suc k)
  then have lt: "\<not> INT_MAX \<le> i" by simp
  from float_of_int_finite [of i] Suc.prems obtain r where r: "float_of_int i = Fin r" by auto
  have k: "k = nat (INT_MAX - (i + 1))" using Suc.hyps(2) by simp
  have ar: "nat (INT_MAX - i + 1) = Suc (nat (INT_MAX - (i + 1) + 1))" using lt by simp
  from Suc.hyps(1) [OF k] Suc.prems lt
  have ih: "transition_loop (i + 1) PInf ms lf rf ld rd
         = (concat (replicate (nat (INT_MAX - (i + 1) + 1)) [SetRgbw lf rf, SleepFor ms]),
            Some SignedOverflow)" by simp
  show ?case
    by (subst transition_loop.simps) (simp add: r assms(3,4) ih ar lt)
qed

text \<open>A transition time of zero: the quotient is 0, or NaN when the refresh interval is
  zero too, and in both cases nothing is pushed.\<close>

lemma float_of_uint_finite:
  "\<exists>r. float_of_uint w = Fin r \<and> (w \<noteq> 0 \<longrightarrow> 0 < r)"
proof -
  define x :: rat where "x = of_nat (unat w)"
  have "unat w < 2 ^ 32" using unsigned_less [of w] by simp
  then have "(of_nat (unat w) :: rat) < of_nat (2 ^ 32)" by (simp only: of_nat_less_iff)
  then have xb: "x < 2 ^ 32" unfolding x_def [symmetric] by simp
  have x0: "0 \<le> x" by (simp only: x_def of_nat_0_le_iff)
  from xb x0 have "\<bar>x\<bar> < 2 ^ 127" by simp
  from round32_error [OF this] obtain r where
    r: "round32 x = Fin r" and err: "\<bar>r - x\<bar> \<le> max (\<bar>x\<bar> / 2 ^ 24) (1 / 2 ^ 150)" by blast
  have "0 < r" if "w \<noteq> 0"
  proof -
    from that have "0 < unat w" by (simp add: unat_gt_0)
    then have "(of_nat 1 :: rat) \<le> of_nat (unat w)" by (simp only: of_nat_le_iff Suc_le_eq One_nat_def)
    then have "(1::rat) \<le> x" unfolding x_def [symmetric] by simp
    then have "\<bar>r - x\<bar> \<le> x / 2 ^ 24" using err by (simp add: max_def split: if_splits)
    moreover have "x / 2 ^ 24 < x" using \<open>1 \<le> x\<close> by simp
    ultimately show ?thesis by linarith
  qed
  with r show ?thesis unfolding float_of_uint_def x_def by blast
qed

lemma zero_time_transition_pushes_nothing:
  assumes "transitionTime h = 0"
  shows "fst (fst (transitionBoth h leftFrom rightFrom)) = []"
proof -
  have z: "float_of_uint (transitionTime h) = Fin 0" by (simp add: assms float_of_uint_def)
  show ?thesis
  proof (cases "transitionRefreshInterval h = 0")
    case True
    then have "float_of_uint (transitionRefreshInterval h) = Fin 0" by (simp add: float_of_uint_def)
    then show ?thesis by (simp add: transitionBoth_def z Let_def split: prod.splits)
  next
    case False
    with float_of_uint_finite [of "transitionRefreshInterval h"] obtain r where
      "float_of_uint (transitionRefreshInterval h) = Fin r" "0 < r" by auto
    then show ?thesis by (simp add: transitionBoth_def z Let_def split: prod.splits)
  qed
qed

section \<open>The fade from 0 to 1 in ten steps, evaluated\<close>

lemma tenth: "fdiv (Fin 1) (Fin 10) = Fin (13421773 / 134217728)"
proof -
  have "round32 (1 / 10) = Fin (13421773 / 134217728)"
    by (rule round32_near [of "-4" _ "-27" 13421773]) (simp_all add: power_int_def power_one_over)
  then show ?thesis by simp
qed

lemma fade_step_1: "fadd (Fin 0) (Fin (13421773 / 134217728)) = Fin (13421773 / 134217728)"
proof -
  have "round32 (0 + 13421773 / 134217728) = Fin (13421773 / 134217728)"
    by (rule round32_near [of "-4" _ "-27" 13421773]) (simp_all add: power_int_def power_one_over)
  then show ?thesis by simp
qed

lemma fade_step_2: "fadd (Fin (13421773 / 134217728)) (Fin (13421773 / 134217728)) = Fin (13421773 / 67108864)"
proof -
  have "round32 (13421773 / 134217728 + 13421773 / 134217728) = Fin (13421773 / 67108864)"
    by (rule round32_near [of "-3" _ "-26" 13421773]) (simp_all add: power_int_def power_one_over)
  then show ?thesis by simp
qed

lemma fade_step_3: "fadd (Fin (13421773 / 67108864)) (Fin (13421773 / 134217728)) = Fin (5033165 / 16777216)"
proof -
  have "round32 (13421773 / 67108864 + 13421773 / 134217728) = Fin (5033165 / 16777216)"
    by (rule round32_near [of "-2" _ "-25" 10066330]) (simp_all add: power_int_def power_one_over)
  then show ?thesis by simp
qed

lemma fade_step_4: "fadd (Fin (5033165 / 16777216)) (Fin (13421773 / 134217728)) = Fin (13421773 / 33554432)"
proof -
  have "round32 (5033165 / 16777216 + 13421773 / 134217728) = Fin (13421773 / 33554432)"
    by (rule round32_near [of "-2" _ "-25" 13421773]) (simp_all add: power_int_def power_one_over)
  then show ?thesis by simp
qed

lemma fade_step_5: "fadd (Fin (13421773 / 33554432)) (Fin (13421773 / 134217728)) = Fin (1 / 2)"
proof -
  have "round32 (13421773 / 33554432 + 13421773 / 134217728) = Fin (1 / 2)"
    by (rule round32_near [of "-1" _ "-24" 8388608]) (simp_all add: power_int_def power_one_over)
  then show ?thesis by simp
qed

lemma fade_step_6: "fadd (Fin (1 / 2)) (Fin (13421773 / 134217728)) = Fin (5033165 / 8388608)"
proof -
  have "round32 (1 / 2 + 13421773 / 134217728) = Fin (5033165 / 8388608)"
    by (rule round32_near [of "-1" _ "-24" 10066330]) (simp_all add: power_int_def power_one_over)
  then show ?thesis by simp
qed

lemma fade_step_7: "fadd (Fin (5033165 / 8388608)) (Fin (13421773 / 134217728)) = Fin (2936013 / 4194304)"
proof -
  have "round32 (5033165 / 8388608 + 13421773 / 134217728) = Fin (2936013 / 4194304)"
    by (rule round32_near [of "-1" _ "-24" 11744052]) (simp_all add: power_int_def power_one_over)
  then show ?thesis by simp
qed

lemma fade_step_8: "fadd (Fin (2936013 / 4194304)) (Fin (13421773 / 134217728)) = Fin (6710887 / 8388608)"
proof -
  have "round32 (2936013 / 4194304 + 13421773 / 134217728) = Fin (6710887 / 8388608)"
    by (rule round32_near [of "-1" _ "-24" 13421774]) (simp_all add: power_int_def power_one_over)
  then show ?thesis by simp
qed

lemma fade_step_9: "fadd (Fin (6710887 / 8388608)) (Fin (13421773 / 134217728)) = Fin (1887437 / 2097152)"
proof -
  have "round32 (6710887 / 8388608 + 13421773 / 134217728) = Fin (1887437 / 2097152)"
    by (rule round32_near [of "-1" _ "-24" 15099496]) (simp_all add: power_int_def power_one_over)
  then show ?thesis by simp
qed

lemma fade_step_10: "fadd (Fin (1887437 / 2097152)) (Fin (13421773 / 134217728)) = Fin (8388609 / 8388608)"
proof -
  have "round32 (1887437 / 2097152 + 13421773 / 134217728) = Fin (8388609 / 8388608)"
    by (rule round32_near [of "0" _ "-23" 8388609]) (simp_all add: power_int_def power_one_over)
  then show ?thesis by simp
qed

lemmas fade_steps = tenth fade_step_1 fade_step_2 fade_step_3 fade_step_4 fade_step_5 fade_step_6 fade_step_7 fade_step_8 fade_step_9 fade_step_10

lemma float_of_int_numeral [simp]:
  "(numeral k :: int) < 2 ^ 24 \<Longrightarrow> float_of_int (numeral k) = Fin (numeral k)"
  using float_of_int_small [of "numeral k"] by simp

lemma float_of_int_0 [simp]: "float_of_int 0 = Fin 0"
  by (simp add: float_of_int_def)

lemma float_of_int_1 [simp]: "float_of_int 1 = Fin 1"
  by (simp add: float_of_int_def)

lemma fade_maxi: "fdiv (float_of_uint 100) (float_of_uint 10) = Fin 10"
  by (simp add: float_of_uint_def)

lemma fade_diff: "fsub (Fin 1) (Fin 0) = Fin 1"
  by (simp add: fsub_def)

lemma clamp_gray:
  assumes "fadd (Fin a) (Fin b) = Fin c"
  shows "clamp_step (gray a) (gray b) = gray (max 0 (min c 1))"
  using assms
  by (simp add: clamp_step_def gray_def NUM_COLORS_def upt4 fmin_def fmax_def min_def max_def
      del: fadd.simps)

lemma transition_loop_unfold:
  assumes "transition_loop j (Fin q) ms lf' rf' ld rd = (es, r)" "j = i + 1"
    and "clamp_step lf ld = lf'" "clamp_step rf rd = rf'"
    and "float_of_int i = Fin (of_int i)" "of_int i < q" "i < INT_MAX"
  shows "transition_loop i (Fin q) ms lf rf ld rd = (SetRgbw lf' rf' # SleepFor ms # es, r)"
  using assms by (subst transition_loop.simps) (simp add: Let_def)

lemma fade_clamp_1: "clamp_step (gray 0) (gray (13421773 / 134217728)) = gray (13421773 / 134217728)"
  using clamp_gray [OF fade_step_1] by simp

lemma fade_clamp_2: "clamp_step (gray (13421773 / 134217728)) (gray (13421773 / 134217728)) = gray (13421773 / 67108864)"
  using clamp_gray [OF fade_step_2] by simp

lemma fade_clamp_3: "clamp_step (gray (13421773 / 67108864)) (gray (13421773 / 134217728)) = gray (5033165 / 16777216)"
  using clamp_gray [OF fade_step_3] by simp

lemma fade_clamp_4: "clamp_step (gray (5033165 / 16777216)) (gray (13421773 / 134217728)) = gray (13421773 / 33554432)"
  using clamp_gray [OF fade_step_4] by simp

lemma fade_clamp_5: "clamp_step (gray (13421773 / 33554432)) (gray (13421773 / 134217728)) = gray (1 / 2)"
  using clamp_gray [OF fade_step_5] by simp

lemma fade_clamp_6: "clamp_step (gray (1 / 2)) (gray (13421773 / 134217728)) = gray (5033165 / 8388608)"
  using clamp_gray [OF fade_step_6] by simp

lemma fade_clamp_7: "clamp_step (gray (5033165 / 8388608)) (gray (13421773 / 134217728)) = gray (2936013 / 4194304)"
  using clamp_gray [OF fade_step_7] by simp

lemma fade_clamp_8: "clamp_step (gray (2936013 / 4194304)) (gray (13421773 / 134217728)) = gray (6710887 / 8388608)"
  using clamp_gray [OF fade_step_8] by simp

lemma fade_clamp_9: "clamp_step (gray (6710887 / 8388608)) (gray (13421773 / 134217728)) = gray (1887437 / 2097152)"
  using clamp_gray [OF fade_step_9] by simp

lemma fade_clamp_10: "clamp_step (gray (1887437 / 2097152)) (gray (13421773 / 134217728)) = gray 1"
  using clamp_gray [OF fade_step_10] by simp

lemma fade_loop_10:
  "transition_loop 10 (Fin 10) 10 (gray 1) (gray 1) (gray (13421773 / 134217728)) (gray (13421773 / 134217728)) = ([], None)"
  by (subst transition_loop.simps) simp

lemma fade_loop_9:
  "transition_loop 9 (Fin 10) 10 (gray (1887437 / 2097152)) (gray (1887437 / 2097152)) (gray (13421773 / 134217728)) (gray (13421773 / 134217728))
   = ([SetRgbw (gray 1) (gray 1), SleepFor 10], None)"
  by (rule transition_loop_unfold [OF fade_loop_10 _ fade_clamp_10 fade_clamp_10])
     (simp_all add: INT_MAX_def)

lemma fade_loop_8:
  "transition_loop 8 (Fin 10) 10 (gray (6710887 / 8388608)) (gray (6710887 / 8388608)) (gray (13421773 / 134217728)) (gray (13421773 / 134217728))
   = ([SetRgbw (gray (1887437 / 2097152)) (gray (1887437 / 2097152)), SleepFor 10, SetRgbw (gray 1) (gray 1), SleepFor 10], None)"
  by (rule transition_loop_unfold [OF fade_loop_9 _ fade_clamp_9 fade_clamp_9])
     (simp_all add: INT_MAX_def)

lemma fade_loop_7:
  "transition_loop 7 (Fin 10) 10 (gray (2936013 / 4194304)) (gray (2936013 / 4194304)) (gray (13421773 / 134217728)) (gray (13421773 / 134217728))
   = ([SetRgbw (gray (6710887 / 8388608)) (gray (6710887 / 8388608)), SleepFor 10, SetRgbw (gray (1887437 / 2097152)) (gray (1887437 / 2097152)), SleepFor 10, SetRgbw (gray 1) (gray 1), SleepFor 10], None)"
  by (rule transition_loop_unfold [OF fade_loop_8 _ fade_clamp_8 fade_clamp_8])
     (simp_all add: INT_MAX_def)

lemma fade_loop_6:
  "transition_loop 6 (Fin 10) 10 (gray (5033165 / 8388608)) (gray (5033165 / 8388608)) (gray (13421773 / 134217728)) (gray (13421773 / 134217728))
   = ([SetRgbw (gray (2936013 / 4194304)) (gray (2936013 / 4194304)), SleepFor 10, SetRgbw (gray (6710887 / 8388608)) (gray (6710887 / 8388608)), SleepFor 10, SetRgbw (gray (1887437 / 2097152)) (gray (1887437 / 2097152)), SleepFor 10, SetRgbw (gray 1) (gray 1), SleepFor 10], None)"
  by (rule transition_loop_unfold [OF fade_loop_7 _ fade_clamp_7 fade_clamp_7])
     (simp_all add: INT_MAX_def)

lemma fade_loop_5:
  "transition_loop 5 (Fin 10) 10 (gray (1 / 2)) (gray (1 / 2)) (gray (13421773 / 134217728)) (gray (13421773 / 134217728))
   = ([SetRgbw (gray (5033165 / 8388608)) (gray (5033165 / 8388608)), SleepFor 10, SetRgbw (gray (2936013 / 4194304)) (gray (2936013 / 4194304)), SleepFor 10, SetRgbw (gray (6710887 / 8388608)) (gray (6710887 / 8388608)), SleepFor 10, SetRgbw (gray (1887437 / 2097152)) (gray (1887437 / 2097152)), SleepFor 10, SetRgbw (gray 1) (gray 1), SleepFor 10], None)"
  by (rule transition_loop_unfold [OF fade_loop_6 _ fade_clamp_6 fade_clamp_6])
     (simp_all add: INT_MAX_def)

lemma fade_loop_4:
  "transition_loop 4 (Fin 10) 10 (gray (13421773 / 33554432)) (gray (13421773 / 33554432)) (gray (13421773 / 134217728)) (gray (13421773 / 134217728))
   = ([SetRgbw (gray (1 / 2)) (gray (1 / 2)), SleepFor 10, SetRgbw (gray (5033165 / 8388608)) (gray (5033165 / 8388608)), SleepFor 10, SetRgbw (gray (2936013 / 4194304)) (gray (2936013 / 4194304)), SleepFor 10, SetRgbw (gray (6710887 / 8388608)) (gray (6710887 / 8388608)), SleepFor 10, SetRgbw (gray (1887437 / 2097152)) (gray (1887437 / 2097152)), SleepFor 10, SetRgbw (gray 1) (gray 1), SleepFor 10], None)"
  by (rule transition_loop_unfold [OF fade_loop_5 _ fade_clamp_5 fade_clamp_5])
     (simp_all add: INT_MAX_def)

lemma fade_loop_3:
  "transition_loop 3 (Fin 10) 10 (gray (5033165 / 16777216)) (gray (5033165 / 16777216)) (gray (13421773 / 134217728)) (gray (13421773 / 134217728))
   = ([SetRgbw (gray (13421773 / 33554432)) (gray (13421773 / 33554432)), SleepFor 10, SetRgbw (gray (1 / 2)) (gray (1 / 2)), SleepFor 10, SetRgbw (gray (5033165 / 8388608)) (gray (5033165 / 8388608)), SleepFor 10, SetRgbw (gray (2936013 / 4194304)) (gray (2936013 / 4194304)), SleepFor 10, SetRgbw (gray (6710887 / 8388608)) (gray (6710887 / 8388608)), SleepFor 10, SetRgbw (gray (1887437 / 2097152)) (gray (1887437 / 2097152)), SleepFor 10, SetRgbw (gray 1) (gray 1), SleepFor 10], None)"
  by (rule transition_loop_unfold [OF fade_loop_4 _ fade_clamp_4 fade_clamp_4])
     (simp_all add: INT_MAX_def)

lemma fade_loop_2:
  "transition_loop 2 (Fin 10) 10 (gray (13421773 / 67108864)) (gray (13421773 / 67108864)) (gray (13421773 / 134217728)) (gray (13421773 / 134217728))
   = ([SetRgbw (gray (5033165 / 16777216)) (gray (5033165 / 16777216)), SleepFor 10, SetRgbw (gray (13421773 / 33554432)) (gray (13421773 / 33554432)), SleepFor 10, SetRgbw (gray (1 / 2)) (gray (1 / 2)), SleepFor 10, SetRgbw (gray (5033165 / 8388608)) (gray (5033165 / 8388608)), SleepFor 10, SetRgbw (gray (2936013 / 4194304)) (gray (2936013 / 4194304)), SleepFor 10, SetRgbw (gray (6710887 / 8388608)) (gray (6710887 / 8388608)), SleepFor 10, SetRgbw (gray (1887437 / 2097152)) (gray (1887437 / 2097152)), SleepFor 10, SetRgbw (gray 1) (gray 1), SleepFor 10], None)"
  by (rule transition_loop_unfold [OF fade_loop_3 _ fade_clamp_3 fade_clamp_3])
     (simp_all add: INT_MAX_def)

lemma fade_loop_1:
  "transition_loop 1 (Fin 10) 10 (gray (13421773 / 134217728)) (gray (13421773 / 134217728)) (gray (13421773 / 134217728)) (gray (13421773 / 134217728))
   = ([SetRgbw (gray (13421773 / 67108864)) (gray (13421773 / 67108864)), SleepFor 10, SetRgbw (gray (5033165 / 16777216)) (gray (5033165 / 16777216)), SleepFor 10, SetRgbw (gray (13421773 / 33554432)) (gray (13421773 / 33554432)), SleepFor 10, SetRgbw (gray (1 / 2)) (gray (1 / 2)), SleepFor 10, SetRgbw (gray (5033165 / 8388608)) (gray (5033165 / 8388608)), SleepFor 10, SetRgbw (gray (2936013 / 4194304)) (gray (2936013 / 4194304)), SleepFor 10, SetRgbw (gray (6710887 / 8388608)) (gray (6710887 / 8388608)), SleepFor 10, SetRgbw (gray (1887437 / 2097152)) (gray (1887437 / 2097152)), SleepFor 10, SetRgbw (gray 1) (gray 1), SleepFor 10], None)"
  by (rule transition_loop_unfold [OF fade_loop_2 _ fade_clamp_2 fade_clamp_2])
     (simp_all add: INT_MAX_def)

lemma fade_loop_0:
  "transition_loop 0 (Fin 10) 10 (gray 0) (gray 0) (gray (13421773 / 134217728)) (gray (13421773 / 134217728))
   = ([SetRgbw (gray (13421773 / 134217728)) (gray (13421773 / 134217728)), SleepFor 10, SetRgbw (gray (13421773 / 67108864)) (gray (13421773 / 67108864)), SleepFor 10, SetRgbw (gray (5033165 / 16777216)) (gray (5033165 / 16777216)), SleepFor 10, SetRgbw (gray (13421773 / 33554432)) (gray (13421773 / 33554432)), SleepFor 10, SetRgbw (gray (1 / 2)) (gray (1 / 2)), SleepFor 10, SetRgbw (gray (5033165 / 8388608)) (gray (5033165 / 8388608)), SleepFor 10, SetRgbw (gray (2936013 / 4194304)) (gray (2936013 / 4194304)), SleepFor 10, SetRgbw (gray (6710887 / 8388608)) (gray (6710887 / 8388608)), SleepFor 10, SetRgbw (gray (1887437 / 2097152)) (gray (1887437 / 2097152)), SleepFor 10, SetRgbw (gray 1) (gray 1), SleepFor 10], None)"
  by (rule transition_loop_unfold [OF fade_loop_1 _ fade_clamp_1 fade_clamp_1])
     (simp_all add: INT_MAX_def)

lemma length_gray [simp]: "length (gray v) = 4"
  by (simp add: gray_def)

lemma fade_tick:
  assumes "transitionsEnabled h" "transitionRefreshInterval h = 10" "transitionTime h = 100"
    and "colorLeft l = black" "colorRight l = black"
  shows "\<exists>st. worker_iteration l (setPatterns (RgbLightConstant ri white) h)
           = (concat (map (\<lambda>v. [SetRgbw (gray v) (gray v), SleepFor 10]) ramp)
              @ [SetRgbw white white, SleepFor ri], Inr st)"
proof -
  have b: "black = gray 0" "white = gray 1"
    by (simp_all add: black_def white_def gray_def)
  have cd: "calc_delta (gray 1) (gray 0) (Fin 10) = gray (13421773 / 134217728)"
    by (simp add: calc_delta_def gray_def NUM_COLORS_def upt4 fade_diff tenth
        del: fadd.simps fdiv.simps)
  show ?thesis
    using assms
    by (simp add: worker_iteration_def transitionBoth_def setPatterns_def
        RgbLightConstant_def getColor_def clone_def Let_def
        b cd fade_maxi fade_loop_0 NUM_COLORS_def ramp_def
        del: fdiv.simps)
qed

section \<open>Stopping\<close>

text \<open>C8: \<^verbatim>\<open>stop\<close> on a handler whose \<^verbatim>\<open>isRunning\<close> is false joins nothing and leaves
  every member as it was; after any \<^verbatim>\<open>stop\<close>, a second \<^verbatim>\<open>stop\<close> is such a call.\<close>

theorem stop_not_running_noop:
  "(\<not> isRunning h \<longrightarrow> stop h = (0, h)) \<and> stop (snd (stop h)) = (0, snd (stop h))"
  by (simp add: stop_def Let_def)

theorem stop_not_running_noop_witness:
  "\<not> isRunning raw_handler \<and> stop raw_handler = (0, raw_handler)
   \<and> stop (snd (stop (raw_handler\<lparr>isRunning := True, workerThread := True\<rparr>)))
       = (0, snd (stop (raw_handler\<lparr>isRunning := True, workerThread := True\<rparr>)))"
  using stop_not_running_noop [of raw_handler]
        stop_not_running_noop [of "raw_handler\<lparr>isRunning := True, workerThread := True\<rparr>"]
  by (simp add: raw_handler_def)

section \<open>The dirty flag\<close>

text \<open>C3, as stated, fails: with transitions disabled a tick of the worker leaves
  \<^verbatim>\<open>patternsChanged\<close> set. Here the handler is built by the one-argument constructor,
  \<^verbatim>\<open>setPatternLeft\<close> raises the flag, and the flag is still raised after the tick.\<close>

theorem flag_survives_disabled_tick:
  "patternsChanged (setPatternLeft (RgbLightConstant 20 black) (RgbLightHandler 20 black raw_handler))
   \<and> \<not> transitionsEnabled
         (setPatternLeft (RgbLightConstant 20 black) (RgbLightHandler 20 black raw_handler))
   \<and> map_option patternsChanged (handler_of (worker_iteration worker_init
        (setPatternLeft (RgbLightConstant 20 black) (RgbLightHandler 20 black raw_handler))))
       = Some True"
  by (simp add: setPatternLeft_def RgbLightHandler_def worker_iteration_def handler_of_def
      getColor_def Let_def)

text \<open>C3, amended: after a tick that ran to its end, \<^verbatim>\<open>patternsChanged\<close> is set exactly
  when it was set before and transitions are disabled. So the flag is cleared by every
  tick with transitions enabled, and never touched with transitions disabled.\<close>

theorem flag_after_tick:
  assumes "worker_iteration l h = (evs, Inr (l', h'))"
  shows "patternsChanged h' = (patternsChanged h \<and> \<not> transitionsEnabled h)"
  using assms
  by (auto simp: worker_iteration_def Let_def getColor_def
      split: prod.splits option.splits if_splits)

theorem flag_after_tick_witness:
  "worker_iteration worker_init (setPatternLeft (RgbLightConstant 20 black) raw_handler)
     = ([SetRgbw black black, SleepFor 20],
        Inr (\<lparr>interval = 20, colorLeft = black, colorRight = black\<rparr>,
             raw_handler\<lparr>patternLeft := (RgbLightConstant 20 black)\<lparr>sampled := 1\<rparr>,
                        patternRight := (RgbLightConstant 20 black)\<lparr>sampled := 1\<rparr>,
                        patternsChanged := True\<rparr>))
   \<and> patternsChanged (raw_handler\<lparr>patternLeft := (RgbLightConstant 20 black)\<lparr>sampled := 1\<rparr>,
                        patternRight := (RgbLightConstant 20 black)\<lparr>sampled := 1\<rparr>,
                        patternsChanged := True\<rparr>)
     = (patternsChanged (setPatternLeft (RgbLightConstant 20 black) raw_handler)
        \<and> \<not> transitionsEnabled (setPatternLeft (RgbLightConstant 20 black) raw_handler))"
proof -
  have run: "worker_iteration worker_init (setPatternLeft (RgbLightConstant 20 black) raw_handler)
     = ([SetRgbw black black, SleepFor 20],
        Inr (\<lparr>interval = 20, colorLeft = black, colorRight = black\<rparr>,
             raw_handler\<lparr>patternLeft := (RgbLightConstant 20 black)\<lparr>sampled := 1\<rparr>,
                        patternRight := (RgbLightConstant 20 black)\<lparr>sampled := 1\<rparr>,
                        patternsChanged := True\<rparr>))"
    by (simp add: worker_iteration_def setPatternLeft_def clone_def RgbLightConstant_def
        raw_handler_def getColor_def Let_def)
  from flag_after_tick [OF run] run show ?thesis by simp
qed

section \<open>The sleep between ticks\<close>

text \<open>C6: a tick that runs to its end sleeps last, and for the smaller of the refresh
  intervals of the two patterns installed when the tick took the lock.\<close>

theorem sleep_is_min_interval:
  assumes "worker_iteration l h = (evs, Inr (l', h'))"
  shows "last evs = SleepFor (min (refreshInterval (patternLeft h))
                                  (refreshInterval (patternRight h)))"
  using assms
  by (auto simp: worker_iteration_def transitionBoth_def Let_def getColor_def
      split: prod.splits option.splits if_splits)

theorem sleep_is_min_interval_witness:
  "worker_iteration worker_init
       (raw_handler\<lparr>patternLeft := RgbLightConstant 50 black,
                   patternRight := RgbLightConstant 30 black\<rparr>)
     = ([SetRgbw black black, SleepFor 30],
        Inr (\<lparr>interval = 30, colorLeft = black, colorRight = black\<rparr>,
             raw_handler\<lparr>patternLeft := (RgbLightConstant 50 black)\<lparr>sampled := 1\<rparr>,
                        patternRight := (RgbLightConstant 30 black)\<lparr>sampled := 1\<rparr>\<rparr>))
   \<and> last [SetRgbw black black, SleepFor 30] = SleepFor (min 50 30)"
proof -
  have run: "worker_iteration worker_init
       (raw_handler\<lparr>patternLeft := RgbLightConstant 50 black,
                   patternRight := RgbLightConstant 30 black\<rparr>)
     = ([SetRgbw black black, SleepFor 30],
        Inr (\<lparr>interval = 30, colorLeft = black, colorRight = black\<rparr>,
             raw_handler\<lparr>patternLeft := (RgbLightConstant 50 black)\<lparr>sampled := 1\<rparr>,
                        patternRight := (RgbLightConstant 30 black)\<lparr>sampled := 1\<rparr>\<rparr>))"
    by (simp add: worker_iteration_def RgbLightConstant_def raw_handler_def getColor_def Let_def)
  from sleep_is_min_interval [OF run] run show ?thesis
    by (simp add: RgbLightConstant_def)
qed

section \<open>Replacement with transitions disabled\<close>

text \<open>C7: with transitions disabled, the tick after \<^verbatim>\<open>setPatternLeft\<close> of a constant
  pattern emits exactly one colour pair, whose left colour is the new constant, and
  then sleeps; nothing is pushed before that pair.\<close>

theorem snap_without_transition:
  assumes "\<not> transitionsEnabled h"
  shows "events_of (worker_iteration l (setPatternLeft (RgbLightConstant ri c) h))
         = [SetRgbw c (fst (getColor (patternRight h))),
            SleepFor (min ri (refreshInterval (patternRight h)))]"
  using assms
  by (simp add: worker_iteration_def setPatternLeft_def clone_def RgbLightConstant_def
      getColor_def events_of_def Let_def)

theorem snap_without_transition_witness:
  "\<not> transitionsEnabled (RgbLightHandler 20 black raw_handler)
   \<and> events_of (worker_iteration worker_init
        (setPatternLeft (RgbLightConstant 20 [Fin (1 / 2), Fin 0, Fin 0, Fin 0])
           (RgbLightHandler 20 black raw_handler)))
     = [SetRgbw [Fin (1 / 2), Fin 0, Fin 0, Fin 0] black, SleepFor 20]"
  using snap_without_transition [of "RgbLightHandler 20 black raw_handler" worker_init 20
      "[Fin (1 / 2), Fin 0, Fin 0, Fin 0]"]
  by (simp add: RgbLightHandler_def RgbLightConstant_def getColor_def)

section \<open>The number of transition steps\<close>

text \<open>C1 at a transition time of 5 ms and a refresh interval of 10 ms, from
  \<open>[0,0,0,0]\<close> to \<open>[1,1,1,1]\<close>: the quotient truncates to 0, but \<^verbatim>\<open>maxi\<close> is 0.5, the
  guard \<^verbatim>\<open>maxi == 0.0\<close> does not fire, and the transition pushes one colour pair. The
  delta is twice the distance to the target; here the clamp cuts the sum 2 to 1.\<close>

theorem short_duration_still_pushes:
  "fst (transitionBoth (setPatterns (RgbLightConstant 20 white)
          (RgbLightHandler_transition 20 black 10 5 raw_handler)) black black)
     = ([SetRgbw white white, SleepFor 10], None)
   \<and> unat (5 :: 32 word) div unat (10 :: 32 word) = 0"
  by (simp add: run_defs upt4 transition_loop.simps)


text \<open>The same timing with the target \<open>[0.25,0.25,0.25,0.25]\<close>: the one colour pushed is
  \<open>[0.5,0.5,0.5,0.5]\<close>, beyond the target that the loop is commented to reach.\<close>

lemma round32_quarter: "round32 (1 / 4) = Fin (1 / 4)"
  using round32_exact [of "1 / 4" 1 "- 2"] by (simp add: power_int_def power_one_over)

lemma short_duration_overshoots:
  "fst (transitionBoth (setPatterns (RgbLightConstant 20 (gray (1 / 4)))
          (RgbLightHandler_transition 20 black 10 5 raw_handler)) black black)
     = ([SetRgbw (gray (1 / 2)) (gray (1 / 2)), SleepFor 10], None)"
  by (simp add: run_defs upt4 transition_loop.simps gray_def round32_quarter)

text \<open>What the loop does in general: for a non-zero refresh interval, both timing values
  below \<open>2^24\<close> and colours of at least \<^verbatim>\<open>NUM_COLORS\<close> channels, the transition pushes as
  many colour pairs as the exact quotient rounded up, ends without fault, and emits
  nothing exactly when the transition time is 0. With a time of 15 and an interval of
  10 it pushes twice.\<close>

lemma transition_step_count_ceiling:
  assumes R0: "transitionRefreshInterval h \<noteq> 0"
    and Db: "unat (transitionTime h) < 2 ^ 24"
    and Rb: "unat (transitionRefreshInterval h) < 2 ^ 24"
    and len: "NUM_COLORS \<le> length leftFrom" "NUM_COLORS \<le> length rightFrom"
      "NUM_COLORS \<le> length (fst (getColor (patternLeft h)))"
      "NUM_COLORS \<le> length (fst (getColor (patternRight h)))"
  shows "length (pushes (fst (fst (transitionBoth h leftFrom rightFrom)))) = nat \<lceil>D_over_R h\<rceil>
         \<and> snd (fst (transitionBoth h leftFrom rightFrom)) = None
         \<and> (fst (fst (transitionBoth h leftFrom rightFrom)) = [] \<longleftrightarrow> transitionTime h = 0)"
proof -
  define D where "D = unat (transitionTime h)"
  define R where "R = unat (transitionRefreshInterval h)"
  have Rpos: "0 < R" using R0 by (simp add: R_def unat_gt_0)
  have fD: "float_of_uint (transitionTime h) = Fin (of_nat D)"
    unfolding D_def using Db by (rule float_of_uint_small)
  have fR: "float_of_uint (transitionRefreshInterval h) = Fin (of_nat R)"
    unfolding R_def using Rb by (rule float_of_uint_small)
  have maxi: "fdiv (float_of_uint (transitionTime h)) (float_of_uint (transitionRefreshInterval h))
              = round32 (of_nat D / of_nat R)"
    using Rpos by (simp add: fD fR)
  show ?thesis
  proof (cases "D = 0")
    case True
    then have "transitionTime h = 0" by (simp add: D_def unat_eq_0)
    then show ?thesis
      using maxi True by (simp add: transitionBoth_def Let_def D_over_R_def split: prod.splits)
  next
    case False
    then have Dpos: "0 < D" by simp
    have tnz: "transitionTime h \<noteq> 0" using False by (auto simp: D_def)
    from quotient_ceiling [OF Rpos Dpos] Db Rb obtain q where
      q: "round32 (of_nat D / of_nat R) = Fin q"
      and cq: "\<lceil>q\<rceil> = \<lceil>(of_nat D / of_nat R :: rat)\<rceil>" and qpos: "0 < q"
      unfolding D_def R_def by blast
    have "(of_nat D / of_nat R :: rat) \<le> of_nat D"
    proof -
      have "(1::rat) \<le> of_nat R" using Rpos by (simp add: Suc_le_eq)
      then have "(of_nat D :: rat) * 1 \<le> of_nat D * of_nat R" by (intro mult_left_mono) simp_all
      then show ?thesis using Rpos by (simp add: field_simps)
    qed
    then have "\<lceil>(of_nat D / of_nat R :: rat)\<rceil> \<le> int D" by (simp add: ceiling_le_iff)
    moreover have "int D < 16777216" using Db unfolding D_def [symmetric] by simp
    ultimately have "\<lceil>q\<rceil> < 16777216" using cq by linarith
    then have nb: "\<lceil>q\<rceil> < 2 ^ 24" by simp
    have n0: "(0::int) \<le> \<lceil>q\<rceil>" using qpos by (simp add: less_imp_le)
    have n1: "(0::int) < \<lceil>q\<rceil>" using qpos by simp
    note cnt = transition_loop_count [OF order_refl n0 refl nb]
    have ne: "fst (transition_loop 0 (Fin q) ms lf rf ld rd) \<noteq> []" for ms lf rf ld rd
      using cnt [of ms lf rf ld rd] n1 by auto
    show ?thesis
      using len maxi q qpos cq cnt ne tnz
      by (auto simp: transitionBoth_def Let_def D_over_R_def D_def R_def split: prod.splits)
  qed
qed

lemma transition_step_count_ceiling_example:
  "transitionRefreshInterval (setPatterns (RgbLightConstant 20 white)
          (RgbLightHandler_transition 20 black 10 15 raw_handler)) \<noteq> 0
   \<and> length (pushes (fst (fst (transitionBoth (setPatterns (RgbLightConstant 20 white)
          (RgbLightHandler_transition 20 black 10 15 raw_handler)) black black)))) = 2
   \<and> snd (fst (transitionBoth (setPatterns (RgbLightConstant 20 white)
          (RgbLightHandler_transition 20 black 10 15 raw_handler)) black black)) = None"
proof -
  have c: "\<lceil>3 / 2 :: rat\<rceil> = 2" by (rule ceiling_unique) simp_all
  show ?thesis
    using transition_step_count_ceiling [of "setPatterns (RgbLightConstant 20 white)
          (RgbLightHandler_transition 20 black 10 15 raw_handler)" black black]
    by (simp add: setPatterns_def RgbLightHandler_transition_def RgbLightConstant_def
        getColor_def clone_def NUM_COLORS_def black_def white_def D_over_R_def c)
qed

text \<open>Where the refresh interval divides the transition time the rounded-up quotient is
  the quotient itself: with a time of 100 and an interval of 10 there are ten pushes.\<close>

lemma transition_step_count_divisible:
  assumes "transitionRefreshInterval h \<noteq> 0"
    and "unat (transitionRefreshInterval h) dvd unat (transitionTime h)"
    and "unat (transitionTime h) < 2 ^ 24"
    and "unat (transitionRefreshInterval h) < 2 ^ 24"
    and "NUM_COLORS \<le> length leftFrom" "NUM_COLORS \<le> length rightFrom"
      "NUM_COLORS \<le> length (fst (getColor (patternLeft h)))"
      "NUM_COLORS \<le> length (fst (getColor (patternRight h)))"
  shows "length (pushes (fst (fst (transitionBoth h leftFrom rightFrom))))
           = unat (transitionTime h) div unat (transitionRefreshInterval h)
         \<and> snd (fst (transitionBoth h leftFrom rightFrom)) = None
         \<and> (fst (fst (transitionBoth h leftFrom rightFrom)) = [] \<longleftrightarrow> transitionTime h = 0)"
proof -
  define R where "R = unat (transitionRefreshInterval h)"
  from assms(2) obtain k where k: "unat (transitionTime h) = R * k"
    unfolding R_def by (auto simp: dvd_def)
  have Rpos: "0 < R" using assms(1) by (simp add: R_def unat_gt_0)
  have "(of_nat (R * k) / of_nat R :: rat) = of_nat k" using Rpos by simp
  then have "D_over_R h = of_nat k" by (simp only: D_over_R_def k R_def [symmetric])
  then have "nat \<lceil>D_over_R h\<rceil> = k" by simp
  moreover have "unat (transitionTime h) div R = k" using Rpos by (simp add: k)
  ultimately have "nat \<lceil>D_over_R h\<rceil> = unat (transitionTime h) div unat (transitionRefreshInterval h)"
    by (simp add: R_def)
  with transition_step_count_ceiling [OF assms(1,3-8)] show ?thesis by simp
qed

lemma transition_step_count_divisible_example:
  "transitionRefreshInterval (setPatterns (RgbLightConstant 20 white)
          (RgbLightHandler_transition 20 black 10 100 raw_handler)) \<noteq> 0
   \<and> length (pushes (fst (fst (transitionBoth (setPatterns (RgbLightConstant 20 white)
          (RgbLightHandler_transition 20 black 10 100 raw_handler)) black black)))) = 10
   \<and> snd (fst (transitionBoth (setPatterns (RgbLightConstant 20 white)
          (RgbLightHandler_transition 20 black 10 100 raw_handler)) black black)) = None"
  using transition_step_count_divisible [of "setPatterns (RgbLightConstant 20 white)
          (RgbLightHandler_transition 20 black 10 100 raw_handler)" black black]
  by (simp add: setPatterns_def RgbLightHandler_transition_def RgbLightConstant_def
      getColor_def clone_def NUM_COLORS_def black_def white_def)

section \<open>Clamping\<close>

text \<open>C5: when the colours a transition starts from and the colours it aims at have only
  finite channels (of magnitude below \<open>2^126\<close>), every colour pair the transition pushes
  has at least \<^verbatim>\<open>NUM_COLORS\<close> channels and its first \<^verbatim>\<open>NUM_COLORS\<close> channels lie in
  \<open>[0, 1]\<close>, whatever the deltas are. In the instance after it the delta is 2 and the
  pushed channel is 1.\<close>

theorem transition_pushes_clamped:
  assumes "finite_color leftFrom" "finite_color rightFrom"
    and "finite_color (fst (getColor (patternLeft h)))"
    and "finite_color (fst (getColor (patternRight h)))"
  shows "list_all unit_pair (pushes (fst (fst (transitionBoth h leftFrom rightFrom))))"
proof -
  define maxi where "maxi = fdiv (float_of_uint (transitionTime h))
                                 (float_of_uint (transitionRefreshInterval h))"
  define leftTo where "leftTo = fst (getColor (patternLeft h))"
  define rightTo where "rightTo = fst (getColor (patternRight h))"
  have fl: "fst (transitionBoth h leftFrom rightFrom) =
    (if feq maxi (Fin 0) then ([], None)
     else if length leftTo < NUM_COLORS \<or> length leftFrom < NUM_COLORS
             \<or> length rightTo < NUM_COLORS \<or> length rightFrom < NUM_COLORS
     then ([], Some OutOfRange)
     else transition_loop 0 maxi (uint (transitionRefreshInterval h)) leftFrom rightFrom
            (calc_delta leftTo leftFrom maxi) (calc_delta rightTo rightFrom maxi))"
    by (simp add: transitionBoth_def Let_def maxi_def leftTo_def rightTo_def split: prod.splits)
  show ?thesis
  proof (cases "feq maxi (Fin 0) \<or> length leftTo < NUM_COLORS \<or> length leftFrom < NUM_COLORS
             \<or> length rightTo < NUM_COLORS \<or> length rightFrom < NUM_COLORS \<or> maxi = NaN")
    case True
    then show ?thesis unfolding fl by auto
  next
    case False
    then have "steppable leftFrom (calc_delta leftTo leftFrom maxi)"
      "steppable rightFrom (calc_delta rightTo rightFrom maxi)"
      using assms by (simp_all add: calc_delta_steppable leftTo_def rightTo_def)
    from transition_loop_clamped [OF this] False show ?thesis unfolding fl by simp
  qed
qed

theorem transition_pushes_clamped_witness:
  "finite_color black \<and> finite_color white
   \<and> pushes (fst (fst (transitionBoth (setPatterns (RgbLightConstant 20 white)
          (RgbLightHandler_transition 20 black 10 5 raw_handler)) black black)))
       = [(white, white)]
   \<and> list_all unit_pair (pushes (fst (fst (transitionBoth (setPatterns (RgbLightConstant 20 white)
          (RgbLightHandler_transition 20 black 10 5 raw_handler)) black black))))"
proof -
  have f: "finite_color black" "finite_color white"
    by (simp_all add: finite_color_def finite_channel_def black_def white_def)
  have p: "pushes (fst (fst (transitionBoth (setPatterns (RgbLightConstant 20 white)
          (RgbLightHandler_transition 20 black 10 5 raw_handler)) black black)))
       = [(white, white)]"
    by (simp add: run_defs upt4 transition_loop.simps)
  have g: "fst (getColor (patternLeft (setPatterns (RgbLightConstant 20 white)
          (RgbLightHandler_transition 20 black 10 5 raw_handler)))) = white"
     "fst (getColor (patternRight (setPatterns (RgbLightConstant 20 white)
          (RgbLightHandler_transition 20 black 10 5 raw_handler)))) = white"
    by (simp_all add: setPatterns_def RgbLightConstant_def getColor_def clone_def)
  from transition_pushes_clamped [of black black "setPatterns (RgbLightConstant 20 white)
          (RgbLightHandler_transition 20 black 10 5 raw_handler)"] f g p
  show ?thesis by simp
qed

section \<open>A transition refresh interval of zero\<close>

text \<open>C2 at a transition time of 100 ms and a refresh interval of 0 ms: the quotient is
  \<open>+\<infinity>\<close>, the guard \<^verbatim>\<open>maxi == 0.0\<close> does not fire, every comparison \<^verbatim>\<open>i < maxi\<close>
  holds, and the routine pushes the unchanged start colours \<open>2^31\<close> times with sleeps of
  0 ms until the increment of its counter overflows.\<close>

theorem zero_interval_transition_spins:
  "fst (transitionBoth (setPatterns (RgbLightConstant 20 white)
          (RgbLightHandler_transition 20 black 0 100 raw_handler)) black black)
     = (concat (replicate (nat (INT_MAX + 1)) [SetRgbw black black, SleepFor 0]),
        Some SignedOverflow)
   \<and> nat (INT_MAX + 1) = 2147483648"
proof -
  have c: "clamp_step black [Fin 0, Fin 0, Fin 0, Fin 0] = black"
    by (simp add: clamp_step_def black_def NUM_COLORS_def upt4 fmin_def fmax_def)
  have p: "0 \<le> INT_MAX" by (simp add: INT_MAX_def)
  have l: "transition_loop 0 PInf 0 black black [Fin 0, Fin 0, Fin 0, Fin 0] [Fin 0, Fin 0, Fin 0, Fin 0]
     = (concat (replicate (nat (INT_MAX + 1)) [SetRgbw black black, SleepFor 0]), Some SignedOverflow)"
    using transition_loop_PInf [OF order_refl p c c, of 0] by simp
  have d: "calc_delta white black PInf = [Fin 0, Fin 0, Fin 0, Fin 0]"
    by (simp add: calc_delta_def white_def black_def NUM_COLORS_def upt4 fsub_def)
  have n: "length white = 4" "length black = 4" by (simp_all add: white_def black_def)
  have "fst (transitionBoth (setPatterns (RgbLightConstant 20 white)
          (RgbLightHandler_transition 20 black 0 100 raw_handler)) black black)
     = (concat (replicate (nat (INT_MAX + 1)) [SetRgbw black black, SleepFor 0]),
        Some SignedOverflow)"
    by (simp add: transitionBoth_def setPatterns_def RgbLightHandler_transition_def
        RgbLightConstant_def getColor_def clone_def float_of_uint_def Let_def d l n NUM_COLORS_def)
  moreover have "nat (INT_MAX + 1) = 2147483648" by (simp add: INT_MAX_def)
  ultimately show ?thesis by (rule conjI)
qed

section \<open>The fade scenario\<close>

text \<open>C4: a handler constructed with default colour \<open>[0,0,0,0]\<close>, refresh interval 10 and
  transition time 100; the worker makes one tick, \<^verbatim>\<open>setPatterns\<close> installs the constant
  \<open>[1,1,1,1]\<close>, and the worker makes its next tick. The events are the sample of the
  default colour, then exactly ten pushes with sleeps of 10 ms whose channels are the
  values of \<open>ramp\<close>, then the sample of the new pattern. Consecutive values of \<open>ramp\<close>
  (starting from 0) differ by 0.1 up to \<open>10^-6\<close>, and the last one is exactly 1.\<close>

theorem ten_step_fade:
  "events_of (worker [[], [SetPatterns (RgbLightConstant ri white)]]
      (RgbLightHandler_transition ri0 black 10 100 h0))
     = [SetRgbw black black, SleepFor ri0]
       @ concat (map (\<lambda>v. [SetRgbw (gray v) (gray v), SleepFor 10]) ramp)
       @ [SetRgbw white white, SleepFor ri]
   \<and> length ramp = 10 \<and> steps_near (1 / 10) (1 / 1000000) (0 # ramp) \<and> last ramp = 1"
proof -
  define h1 where "h1 = (RgbLightHandler_transition ri0 black 10 100 h0)
     \<lparr>isRunning := True,
      patternLeft := (RgbLightConstant ri0 black)\<lparr>sampled := 1\<rparr>,
      patternRight := (RgbLightConstant ri0 black)\<lparr>sampled := 1\<rparr>\<rparr>"
  define l1 where "l1 = \<lparr>interval = ri0, colorLeft = black, colorRight = black\<rparr>"
  have first: "worker_iteration worker_init
      ((RgbLightHandler_transition ri0 black 10 100 h0)\<lparr>isRunning := True\<rparr>)
     = ([SetRgbw black black, SleepFor ri0], Inr (l1, h1))"
    by (simp add: worker_iteration_def RgbLightHandler_transition_def RgbLightConstant_def
        getColor_def Let_def h1_def l1_def)
  have h1: "transitionsEnabled h1" "transitionRefreshInterval h1 = 10" "transitionTime h1 = 100"
    "isRunning h1"
    by (simp_all add: h1_def RgbLightHandler_transition_def)
  have l1: "colorLeft l1 = black" "colorRight l1 = black" by (simp_all add: l1_def)
  from fade_tick [OF h1(1-3) l1, of ri] obtain st where
    second: "worker_iteration l1 (setPatterns (RgbLightConstant ri white) h1)
           = (concat (map (\<lambda>v. [SetRgbw (gray v) (gray v), SleepFor 10]) ramp)
              @ [SetRgbw white white, SleepFor ri], Inr st)" ..
  have run: "isRunning (setPatterns (RgbLightConstant ri white) h1)"
    using h1(4) by (simp add: setPatterns_def)
  have "events_of (worker [[], [SetPatterns (RgbLightConstant ri white)]]
      (RgbLightHandler_transition ri0 black 10 100 h0))
     = [SetRgbw black black, SleepFor ri0]
       @ concat (map (\<lambda>v. [SetRgbw (gray v) (gray v), SleepFor 10]) ramp)
       @ [SetRgbw white white, SleepFor ri]"
    by (cases st) (simp add: worker_def events_of_def first second run)
  moreover have "length ramp = 10 \<and> steps_near (1 / 10) (1 / 1000000) (0 # ramp) \<and> last ramp = 1"
    by (simp add: ramp_def)
  ultimately show ?thesis by (rule conjI)
qed

section \<open>The first transition\<close>

text \<open>C10: the worker starts with both remembered colours at \<open>[0,0,0,0]\<close>, whatever the
  default colour of the constructor; when its first tick runs a transition, the events
  of the run begin with the events of a transition from \<open>[0,0,0,0]\<close> on both sides. In
  the instance after it the default colour and the target are both \<open>[1,1,1,1]\<close>, and
  the first colour pushed is \<open>[0.5,0.5,0.5,0.5]\<close>.\<close>

theorem first_transition_starts_black:
  assumes "isRunning (foldl apply_call (h\<lparr>isRunning := True\<rparr>) cs)"
    and "patternsChanged (foldl apply_call (h\<lparr>isRunning := True\<rparr>) cs)"
    and "transitionsEnabled (foldl apply_call (h\<lparr>isRunning := True\<rparr>) cs)"
  shows "colorLeft worker_init = black \<and> colorRight worker_init = black
    \<and> take (length (fst (fst (transitionBoth (foldl apply_call (h\<lparr>isRunning := True\<rparr>) cs)
                                  black black))))
         (events_of (worker (cs # css) h))
       = fst (fst (transitionBoth (foldl apply_call (h\<lparr>isRunning := True\<rparr>) cs) black black))"
  using assms
  by (auto simp: worker_def worker_iteration_def worker_init_def black_def events_of_def Let_def
      split: prod.splits option.splits sum.splits)

theorem first_transition_starts_black_witness:
  "isRunning (foldl apply_call ((setPatternLeft (RgbLightConstant 20 white)
        (RgbLightHandler_transition 20 white 10 20 raw_handler))\<lparr>isRunning := True\<rparr>) [])
   \<and> fst (fst (transitionBoth (foldl apply_call ((setPatternLeft (RgbLightConstant 20 white)
        (RgbLightHandler_transition 20 white 10 20 raw_handler))\<lparr>isRunning := True\<rparr>) [])
          black black))
       = [SetRgbw (gray (1 / 2)) (gray (1 / 2)), SleepFor 10, SetRgbw white white, SleepFor 10]
   \<and> take 4 (events_of (worker [[]] (setPatternLeft (RgbLightConstant 20 white)
        (RgbLightHandler_transition 20 white 10 20 raw_handler))))
       = [SetRgbw (gray (1 / 2)) (gray (1 / 2)), SleepFor 10, SetRgbw white white, SleepFor 10]"
proof -
  have t: "fst (fst (transitionBoth (foldl apply_call ((setPatternLeft (RgbLightConstant 20 white)
        (RgbLightHandler_transition 20 white 10 20 raw_handler))\<lparr>isRunning := True\<rparr>) [])
          black black))
       = [SetRgbw (gray (1 / 2)) (gray (1 / 2)), SleepFor 10, SetRgbw white white, SleepFor 10]"
    by (simp add: run_defs upt4 transition_loop.simps gray_def)
  have four: "Suc (Suc (Suc (Suc 0))) = 4" by simp
  from first_transition_starts_black [of "setPatternLeft (RgbLightConstant 20 white)
        (RgbLightHandler_transition 20 white 10 20 raw_handler)" "[]" "[]"] t
  show ?thesis
    by (simp add: setPatternLeft_def RgbLightHandler_transition_def four)
qed

end
